theory Spec2Isabelle
  imports Main "HOL-Library.Sublist" "HOL-Library.AList"
begin

section \<open>Go library functions used by the markup normalizer\<close>

text \<open>
  A Go string is a sequence of bytes; it is modelled as a \<^typ>\<open>string\<close>, one
  \<^typ>\<open>char\<close> per byte. The pattern \<^verbatim>\<open><[^>]*>\<close> and the five entity codes are ASCII, so
  the regular expression and \<^verbatim>\<open>strings.ReplaceAll\<close> act on bytes; \<^verbatim>\<open>strings.Fields\<close>
  decodes UTF-8 and asks \<^verbatim>\<open>unicode.IsSpace\<close> of every code point.
\<close>

subsection \<open>\<^verbatim>\<open>utf8.DecodeRuneInString\<close> and \<^verbatim>\<open>unicode.IsSpace\<close>\<close>

definition RuneError :: nat where
  "RuneError = 0xFFFD"

text \<open>The byte ranges of \<^verbatim>\<open>utf8.first\<close> and \<^verbatim>\<open>utf8.acceptRanges\<close>: the size of the
  sequence a leading byte announces (0 for a byte that cannot lead), and the range the second
  byte must lie in.\<close>

definition seqSize :: "nat \<Rightarrow> nat" where
  "seqSize b0 =
     (if b0 < 0x80 then 1
      else if b0 < 0xC2 then 0
      else if b0 < 0xE0 then 2
      else if b0 < 0xF0 then 3
      else if b0 < 0xF5 then 4
      else 0)"

definition acceptLo :: "nat \<Rightarrow> nat" where
  "acceptLo b0 = (if b0 = 0xE0 then 0xA0 else if b0 = 0xF0 then 0x90 else 0x80)"

definition acceptHi :: "nat \<Rightarrow> nat" where
  "acceptHi b0 = (if b0 = 0xED then 0x9F else if b0 = 0xF4 then 0x8F else 0xBF)"

text \<open>\<^verbatim>\<open>DecodeRuneInString\<close> returns the code point at the head of the string and its width
  in bytes; an invalid or truncated sequence is \<^verbatim>\<open>RuneError\<close> of width 1, the empty string
  \<^verbatim>\<open>RuneError\<close> of width 0. A \<^verbatim>\<open>range\<close> loop over a string decodes the same way.\<close>

definition DecodeRuneInString :: "string \<Rightarrow> nat \<times> nat" where
  "DecodeRuneInString s =
     (case s of
        [] \<Rightarrow> (RuneError, 0)
      | c0 # _ \<Rightarrow>
          (let s0 = (of_char c0 :: nat); sz = seqSize s0 in
           if sz = 1 then (s0, 1)
           else if sz = 0 then (RuneError, 1)
           else if length s < sz then (RuneError, 1)
           else
             (let s1 = (of_char (s ! 1) :: nat) in
              if s1 < acceptLo s0 \<or> acceptHi s0 < s1 then (RuneError, 1)
              else if sz \<le> 2 then ((s0 mod 32) * 64 + s1 mod 64, 2)
              else
                (let s2 = (of_char (s ! 2) :: nat) in
                 if s2 < 0x80 \<or> 0xBF < s2 then (RuneError, 1)
                 else if sz \<le> 3 then ((s0 mod 16) * 4096 + (s1 mod 64) * 64 + s2 mod 64, 3)
                 else
                   (let s3 = (of_char (s ! 3) :: nat) in
                    if s3 < 0x80 \<or> 0xBF < s3 then (RuneError, 1)
                    else ((s0 mod 8) * 262144 + (s1 mod 64) * 4096
                            + (s2 mod 64) * 64 + s3 mod 64, 4))))))"

text \<open>\<^verbatim>\<open>unicode.IsSpace\<close>: the Latin-1 switch, then the \<^verbatim>\<open>White_Space\<close> range table.\<close>

definition IsSpace :: "nat \<Rightarrow> bool" where
  "IsSpace r =
     (if r \<le> 0xFF then r \<in> {0x09, 0x0A, 0x0B, 0x0C, 0x0D, 0x20, 0x85, 0xA0}
      else r = 0x1680 \<or> (0x2000 \<le> r \<and> r \<le> 0x200A) \<or> r = 0x2028 \<or> r = 0x2029
           \<or> r = 0x202F \<or> r = 0x205F \<or> r = 0x3000)"

subsection \<open>\<^verbatim>\<open>strings.Fields\<close> and \<^verbatim>\<open>strings.Join\<close>\<close>

text \<open>\<^verbatim>\<open>Fields(s)\<close> is \<^verbatim>\<open>FieldsFunc(s, unicode.IsSpace)\<close>; its fast path for a string
  of ASCII bytes splits at the same six ASCII whitespace bytes. The loop of \<^verbatim>\<open>FieldsFunc\<close>
  walks the string rune by rune. \<open>cur\<close> holds the bytes of the field being read (the span
  from \<^verbatim>\<open>start\<close> to the position of the walk); it is empty exactly when the source's
  \<^verbatim>\<open>start\<close> is negative, since every rune has a positive width.\<close>

function FieldsFunc :: "string \<Rightarrow> string \<Rightarrow> string list" where
  "FieldsFunc s cur =
     (if s = [] then (if cur = [] then [] else [cur])
      else
        (let (r, n) = DecodeRuneInString s in
         if IsSpace r then
           (if cur = [] then FieldsFunc (drop n s) []
            else cur # FieldsFunc (drop n s) [])
         else FieldsFunc (drop n s) (cur @ take n s)))"
  by pat_completeness auto
termination
proof (relation "measure (\<lambda>(s, cur). length s)")
  show "wf (measure (\<lambda>(s, cur). length s))" by simp
next
  fix s cur :: string and x :: "nat \<times> nat" and r n :: nat
  assume "s \<noteq> []" and "x = DecodeRuneInString s" and "(r, n) = x"
  then have "n = snd (DecodeRuneInString s)" by (metis snd_conv)
  moreover have "1 \<le> snd (DecodeRuneInString s)"
    using \<open>s \<noteq> []\<close>
    by (cases s) (auto simp: DecodeRuneInString_def Let_def split: if_splits)
  ultimately have "1 \<le> n" by simp
  then show "((drop n s, []), (s, cur)) \<in> measure (\<lambda>(s, cur). length s)"
    using \<open>s \<noteq> []\<close> by simp
  show "((drop n s, []), (s, cur)) \<in> measure (\<lambda>(s, cur). length s)"
    using \<open>1 \<le> n\<close> \<open>s \<noteq> []\<close> by simp
  show "((drop n s, cur @ take n s), (s, cur)) \<in> measure (\<lambda>(s, cur). length s)"
    using \<open>1 \<le> n\<close> \<open>s \<noteq> []\<close> by simp
qed

definition Fields :: "string \<Rightarrow> string list" where
  "Fields s = FieldsFunc s []"

text \<open>The code points a \<^verbatim>\<open>range\<close> loop over the string yields.\<close>

function runes :: "string \<Rightarrow> nat list" where
  "runes s =
     (if s = [] then []
      else (let (r, n) = DecodeRuneInString s in r # runes (drop n s)))"
  by pat_completeness auto
termination
proof (relation "measure length")
  show "wf (measure length)" by simp
next
  fix s :: string and x :: "nat \<times> nat" and r n :: nat
  assume "s \<noteq> []" and "x = DecodeRuneInString s" and "(r, n) = x"
  then have "n = snd (DecodeRuneInString s)" by (metis snd_conv)
  moreover have "1 \<le> snd (DecodeRuneInString s)"
    using \<open>s \<noteq> []\<close>
    by (cases s) (auto simp: DecodeRuneInString_def Let_def split: if_splits)
  ultimately show "(drop n s, s) \<in> measure length"
    using \<open>s \<noteq> []\<close> by simp
qed

fun Join :: "string list \<Rightarrow> string \<Rightarrow> string" where
  "Join [] sep = []"
| "Join [w] sep = w"
| "Join (w # ws) sep = w @ sep @ Join ws sep"

subsection \<open>\<^verbatim>\<open>strings.ReplaceAll\<close>\<close>

text \<open>Every non-overlapping occurrence of \<open>old\<close>, found from the left, is replaced by
  \<open>new\<close>. The source passes only the five non-empty entity codes; for the empty pattern
  (where Go inserts \<open>new\<close> between runes) this model leaves the text as it is.\<close>

function ReplaceAll :: "string \<Rightarrow> string \<Rightarrow> string \<Rightarrow> string" where
  "ReplaceAll s old new =
     (if s = [] \<or> old = [] then s
      else if prefix old s then new @ ReplaceAll (drop (length old) s) old new
      else hd s # ReplaceAll (tl s) old new)"
  by pat_completeness auto
termination
  by (relation "measure (\<lambda>(s, old, new). length s)") (auto simp: neq_Nil_conv)

subsection \<open>The regular expression \<^verbatim>\<open><[^>]*>\<close>\<close>

text \<open>\<^verbatim>\<open>htmlTagRegex.ReplaceAllString(html, repl)\<close> for a replacement without \<^verbatim>\<open>$\<close>. A match
  starts at a \<^verbatim>\<open><\<close> that has a \<^verbatim>\<open>>\<close> somewhere after it and ends at the first such \<^verbatim>\<open>>\<close>;
  the search resumes behind the match.\<close>

function htmlTagRegex_ReplaceAllString :: "string \<Rightarrow> string \<Rightarrow> string" where
  "htmlTagRegex_ReplaceAllString html repl =
     (case html of
        [] \<Rightarrow> []
      | c # cs \<Rightarrow>
          if c = CHR ''<'' \<and> CHR ''>'' \<in> set cs
          then repl @ htmlTagRegex_ReplaceAllString (tl (dropWhile (\<lambda>x. x \<noteq> CHR ''>'') cs)) repl
          else c # htmlTagRegex_ReplaceAllString cs repl)"
  by pat_completeness auto
termination
proof (relation "measure (\<lambda>(html, repl). length html)")
  show "wf (measure (\<lambda>(html, repl). length html))" by simp
next
  fix html repl :: string and c :: char and cs :: string
  assume "html = c # cs"
  have "length (tl (dropWhile (\<lambda>x. x \<noteq> CHR ''>'') cs)) \<le> length cs"
    using length_dropWhile_le [of "\<lambda>x. x \<noteq> CHR ''>''" cs] by simp
  then show "((tl (dropWhile (\<lambda>x. x \<noteq> CHR ''>'') cs), repl), (html, repl))
               \<in> measure (\<lambda>(html, repl). length html)"
    using \<open>html = c # cs\<close> by simp
  show "((cs, repl), (html, repl)) \<in> measure (\<lambda>(html, repl). length html)"
    using \<open>html = c # cs\<close> by simp
qed

section \<open>The markup normalizer (pages.go)\<close>

definition stripHTML :: "string \<Rightarrow> string" where
  "stripHTML html =
     (let text = htmlTagRegex_ReplaceAllString html '' '';
          text = ReplaceAll text ''&nbsp;'' '' '';
          text = ReplaceAll text ''&amp;'' ''&'';
          text = ReplaceAll text ''&lt;'' ''<'';
          text = ReplaceAll text ''&gt;'' ''>'';
          text = ReplaceAll text ''&quot;'' [CHR 0x22];
          words = Fields text
      in Join words '' '')"


section \<open>More Go library functions: formatting, escaping, time\<close>

subsection \<open>The verb \<^verbatim>\<open>%d\<close> of \<^verbatim>\<open>fmt.Sprintf\<close>\<close>

function digitsOf :: "nat \<Rightarrow> string" where
  "digitsOf n =
     (if n < 10 then [char_of (48 + n)]
      else digitsOf (n div 10) @ [char_of (48 + n mod 10)])"
  by pat_completeness auto
termination
  by (relation "measure (\<lambda>n. n)") auto

definition Sprintf_d :: "int \<Rightarrow> string" where
  "Sprintf_d i = (if i < 0 then CHR ''-'' # digitsOf (nat (- i)) else digitsOf (nat i))"

subsection \<open>\<^verbatim>\<open>url.QueryEscape\<close>\<close>

definition shouldEscape :: "char \<Rightarrow> bool" where
  "shouldEscape c =
     (let b = (of_char c :: nat) in
      if (97 \<le> b \<and> b \<le> 122) \<or> (65 \<le> b \<and> b \<le> 90) \<or> (48 \<le> b \<and> b \<le> 57) then False
      else if c \<in> {CHR ''-'', CHR ''_'', CHR ''.'', CHR ''~''} then False
      else True)"

definition upperhex :: "nat \<Rightarrow> char" where
  "upperhex d = ''0123456789ABCDEF'' ! (d mod 16)"

fun QueryEscape :: "string \<Rightarrow> string" where
  "QueryEscape [] = []"
| "QueryEscape (c # cs) =
     (if c = CHR '' '' then CHR ''+'' # QueryEscape cs
      else if shouldEscape c
      then CHR ''%'' # upperhex (of_char c div 16) # upperhex (of_char c mod 16) # QueryEscape cs
      else c # QueryEscape cs)"

subsection \<open>\<^verbatim>\<open>time.Time\<close>\<close>

text \<open>An instant is its seconds and its nanoseconds within the second. The instants of this
  program are decoded from JSON or arrive as operation inputs, so they carry no monotonic
  clock reading, and \<^verbatim>\<open>Before\<close> compares the wall clock.\<close>

record Time =
  Time_sec :: int
  Time_nsec :: int

definition Before :: "Time \<Rightarrow> Time \<Rightarrow> bool" where
  "Before t u = (Time_sec t < Time_sec u \<or> (Time_sec t = Time_sec u \<and> Time_nsec t < Time_nsec u))"

section \<open>The data model (client.go)\<close>

record Space =
  Space_ID :: int
  Space_Key :: string
  Space_Name :: string

record StorageBody =
  StorageBody_Value :: string

record ViewBody =
  ViewBody_Value :: string

record Body =
  Body_Storage :: StorageBody
  Body_View :: ViewBody

record Version =
  Version_Number :: int
  Version_When :: string
  Version_CreatedAt :: Time

record PageLinks =
  PageLinks_WebUI :: string
  PageLinks_Self :: string

record Page =
  Page_ID :: string
  Page_Type :: string
  Page_Status :: string
  Page_Title :: string
  Page_Space :: Space
  Page_Body :: Body
  Page_Version :: Version
  Page_Links :: PageLinks

record SearchResultItem =
  SearchResultItem_Content :: Page
  SearchResultItem_Title :: string
  SearchResultItem_Excerpt :: string
  SearchResultItem_URL :: string
  SearchResultItem_ResultType :: string

record SearchResult =
  SearchResult_Results :: "SearchResultItem list"
  SearchResult_Start :: int
  SearchResult_Limit :: int
  SearchResult_Size :: int

text \<open>\<^verbatim>\<open>transform.Document\<close> is declared outside this repository; these are the fields
  \<^verbatim>\<open>pageToDocument\<close> sets.\<close>

record Document =
  Document_ID :: string
  Document_Content :: string
  Document_Title :: string
  Document_Source :: string
  Document_URL :: string
  Document_Metadata :: "string \<rightharpoonup> string"
  Document_UpdatedAt :: Time

section \<open>Page to document (pages.go)\<close>

definition pageToDocument :: "Page \<Rightarrow> string \<Rightarrow> Document" where
  "pageToDocument page baseURL =
     (let content = stripHTML (StorageBody_Value (Body_Storage (Page_Body page)));
          content = (if content = [] then stripHTML (ViewBody_Value (Body_View (Page_Body page)))
                     else content);
          pageURL = baseURL @ PageLinks_WebUI (Page_Links page);
          metadata = [''page_id'' \<mapsto> Page_ID page,
                      ''space_key'' \<mapsto> Space_Key (Page_Space page),
                      ''space_name'' \<mapsto> Space_Name (Page_Space page),
                      ''status'' \<mapsto> Page_Status page,
                      ''version'' \<mapsto> Sprintf_d (Version_Number (Page_Version page))]
      in \<lparr>Document_ID = Page_ID page,
          Document_Content = content,
          Document_Title = Page_Title page,
          Document_Source = ''confluence'',
          Document_URL = pageURL,
          Document_Metadata = metadata,
          Document_UpdatedAt = Version_CreatedAt (Page_Version page)\<rparr>)"


section \<open>The remote access client (client.go)\<close>

text \<open>A Go \<^verbatim>\<open>error\<close> is modelled by its message, the text of \<^verbatim>\<open>err.Error()\<close>;
  \<^verbatim>\<open>fmt.Errorf("step: %w", err)\<close> puts the step before the message of the wrapped error.\<close>

type_synonym error = string

record ClientConfig =
  ClientConfig_BaseURL :: string
  ClientConfig_Email :: string
  ClientConfig_APIToken :: string
  ClientConfig_Timeout :: int

record Client =
  Client_baseURL :: string
  Client_email :: string
  Client_apiToken :: string
  Client_httpClient_Timeout :: int

definition Second :: int where
  "Second = 1000000000"

definition NewClient :: "ClientConfig \<Rightarrow> Client" where
  "NewClient cfg =
     (let timeout = ClientConfig_Timeout cfg;
          timeout = (if timeout = 0 then 30 * Second else timeout)
      in \<lparr>Client_baseURL = ClientConfig_BaseURL cfg,
          Client_email = ClientConfig_Email cfg,
          Client_apiToken = ClientConfig_APIToken cfg,
          Client_httpClient_Timeout = timeout\<rparr>)"

record Request =
  Request_Method :: string
  Request_URL :: string
  Request_BasicAuth :: "(string \<times> string) option"
  Request_Header :: "(string \<times> string) list"

record Response =
  Response_StatusCode :: int
  Response_Body :: string

text \<open>The collaborators outside the repository are parameters of the model: whether
  \<^verbatim>\<open>http.NewRequestWithContext\<close> rejects a method and URL, what the server (through
  \<^verbatim>\<open>http.Client.Do\<close>, with the client's timeout) answers to a request, what
  \<^verbatim>\<open>encoding/json\<close> decodes from a response body, and what \<^verbatim>\<open>transform.StoreDocuments\<close>
  returns for a batch. The context is not modelled: a cancelled call is a call that returns an
  error. \<open>'ref\<close> is the opaque \<^verbatim>\<open>core.DataRef\<close>.\<close>

record 'ref env =
  env_NewRequestError :: "string \<Rightarrow> string \<Rightarrow> error option"
  env_Do :: "int \<Rightarrow> Request \<Rightarrow> error + Response"
  env_DecodeSearchResult :: "string \<Rightarrow> error + SearchResult"
  env_DecodePage :: "string \<Rightarrow> error + Page"
  env_DecodePages :: "string \<Rightarrow> error + Page list"
  env_StoreDocuments :: "Document list \<Rightarrow> error + 'ref"

text \<open>The calls that leave the process, in the order they are made.\<close>

datatype event = HTTPDo Request | Store "Document list"

definition StatusOK :: int where
  "StatusOK = 200"

definition NewRequestWithContext :: "'ref env \<Rightarrow> string \<Rightarrow> string \<Rightarrow> error + Request" where
  "NewRequestWithContext env method url =
     (case env_NewRequestError env method url of
        Some err \<Rightarrow> Inl err
      | None \<Rightarrow> Inr \<lparr>Request_Method = method, Request_URL = url,
                     Request_BasicAuth = None, Request_Header = []\<rparr>)"

definition Header_Set :: "(string \<times> string) list \<Rightarrow> string \<Rightarrow> string \<Rightarrow> (string \<times> string) list" where
  "Header_Set h k v = AList.update k v h"

definition setAuth :: "Client \<Rightarrow> Request \<Rightarrow> Request" where
  "setAuth c req =
     (let req = req\<lparr>Request_BasicAuth := Some (Client_email c, Client_apiToken c)\<rparr>;
          req = req\<lparr>Request_Header := Header_Set (Request_Header req) ''Accept'' ''application/json''\<rparr>;
          req = req\<lparr>Request_Header := Header_Set (Request_Header req) ''Content-Type'' ''application/json''\<rparr>
      in req)"

text \<open>The three endpoints, as the \<^verbatim>\<open>fmt.Sprintf\<close> calls build them.\<close>

definition SearchCQL_endpoint :: "Client \<Rightarrow> string \<Rightarrow> int \<Rightarrow> string" where
  "SearchCQL_endpoint c cql limit =
     Client_baseURL c @ ''/wiki/rest/api/search?cql='' @ QueryEscape cql
       @ ''&limit='' @ Sprintf_d limit
       @ ''&expand=content.body.storage,content.space,content.version''"

definition GetPage_endpoint :: "Client \<Rightarrow> string \<Rightarrow> string" where
  "GetPage_endpoint c pageID =
     Client_baseURL c @ ''/wiki/rest/api/content/'' @ pageID
       @ ''?expand=body.storage,space,version''"

definition GetSpacePages_endpoint :: "Client \<Rightarrow> string \<Rightarrow> int \<Rightarrow> string" where
  "GetSpacePages_endpoint c spaceKey limit =
     Client_baseURL c @ ''/wiki/rest/api/content?spaceKey='' @ spaceKey
       @ ''&limit='' @ Sprintf_d limit
       @ ''&expand=body.storage,space,version''"

text \<open>The errors: \<^verbatim>\<open>fmt.Errorf("<step>: %w", err)\<close> and
  \<^verbatim>\<open>fmt.Errorf("confluence API error: status=%d body=%s", status, body)\<close>.\<close>

definition Errorf_w :: "string \<Rightarrow> error \<Rightarrow> error" where
  "Errorf_w step err = step @ '': '' @ err"

definition Errorf_status_body :: "int \<Rightarrow> string \<Rightarrow> error" where
  "Errorf_status_body status body =
     ''confluence API error: status='' @ Sprintf_d status @ '' body='' @ body"

definition SearchCQL :: "'ref env \<Rightarrow> Client \<Rightarrow> string \<Rightarrow> int \<Rightarrow> (error + SearchResult) \<times> event list" where
  "SearchCQL env c cql limit0 =
     (let limit = (if limit0 \<le> 0 then 25 else limit0);
          endpoint = SearchCQL_endpoint c cql limit
      in case NewRequestWithContext env ''GET'' endpoint of
           Inl err \<Rightarrow> (Inl (Errorf_w ''create request'' err), [])
         | Inr req0 \<Rightarrow>
             (let req = setAuth c req0 in
              case env_Do env (Client_httpClient_Timeout c) req of
                Inl err \<Rightarrow> (Inl (Errorf_w ''execute request'' err), [HTTPDo req])
              | Inr resp \<Rightarrow>
                  if Response_StatusCode resp \<noteq> StatusOK
                  then (Inl (Errorf_status_body (Response_StatusCode resp) (Response_Body resp)),
                        [HTTPDo req])
                  else (case env_DecodeSearchResult env (Response_Body resp) of
                          Inl err \<Rightarrow> (Inl (Errorf_w ''decode response'' err), [HTTPDo req])
                        | Inr result \<Rightarrow> (Inr result, [HTTPDo req]))))"

definition GetPage :: "'ref env \<Rightarrow> Client \<Rightarrow> string \<Rightarrow> (error + Page) \<times> event list" where
  "GetPage env c pageID =
     (let endpoint = GetPage_endpoint c pageID
      in case NewRequestWithContext env ''GET'' endpoint of
           Inl err \<Rightarrow> (Inl (Errorf_w ''create request'' err), [])
         | Inr req0 \<Rightarrow>
             (let req = setAuth c req0 in
              case env_Do env (Client_httpClient_Timeout c) req of
                Inl err \<Rightarrow> (Inl (Errorf_w ''execute request'' err), [HTTPDo req])
              | Inr resp \<Rightarrow>
                  if Response_StatusCode resp \<noteq> StatusOK
                  then (Inl (Errorf_status_body (Response_StatusCode resp) (Response_Body resp)),
                        [HTTPDo req])
                  else (case env_DecodePage env (Response_Body resp) of
                          Inl err \<Rightarrow> (Inl (Errorf_w ''decode response'' err), [HTTPDo req])
                        | Inr page \<Rightarrow> (Inr page, [HTTPDo req]))))"

definition GetSpacePages :: "'ref env \<Rightarrow> Client \<Rightarrow> string \<Rightarrow> int \<Rightarrow> (error + Page list) \<times> event list" where
  "GetSpacePages env c spaceKey limit0 =
     (let limit = (if limit0 \<le> 0 then 25 else limit0);
          endpoint = GetSpacePages_endpoint c spaceKey limit
      in case NewRequestWithContext env ''GET'' endpoint of
           Inl err \<Rightarrow> (Inl (Errorf_w ''create request'' err), [])
         | Inr req0 \<Rightarrow>
             (let req = setAuth c req0 in
              case env_Do env (Client_httpClient_Timeout c) req of
                Inl err \<Rightarrow> (Inl (Errorf_w ''execute request'' err), [HTTPDo req])
              | Inr resp \<Rightarrow>
                  if Response_StatusCode resp \<noteq> StatusOK
                  then (Inl (Errorf_status_body (Response_StatusCode resp) (Response_Body resp)),
                        [HTTPDo req])
                  else (case env_DecodePages env (Response_Body resp) of
                          Inl err \<Rightarrow> (Inl (Errorf_w ''decode response'' err), [HTTPDo req])
                        | Inr results \<Rightarrow> (Inr results, [HTTPDo req]))))"

section \<open>The operations (pages.go)\<close>

record FetchPagesInput =
  FetchPagesInput_BaseURL :: string
  FetchPagesInput_Email :: string
  FetchPagesInput_APIToken :: string
  FetchPagesInput_SpaceKey :: string
  FetchPagesInput_Since :: "Time option"
  FetchPagesInput_Limit :: int

record 'ref FetchPagesOutput =
  FetchPagesOutput_Ref :: 'ref
  FetchPagesOutput_Count :: int

text \<open>The loop of \<^verbatim>\<open>FetchPagesActivity\<close> over the pages; \<open>docs\<close> is the slice built so far.\<close>

fun FetchPages_loop :: "Time option \<Rightarrow> string \<Rightarrow> Page list \<Rightarrow> Document list \<Rightarrow> Document list" where
  "FetchPages_loop since baseURL [] docs = docs"
| "FetchPages_loop since baseURL (page # pages) docs =
     (if since \<noteq> None \<and> Before (Version_CreatedAt (Page_Version page)) (the since)
      then FetchPages_loop since baseURL pages docs
      else FetchPages_loop since baseURL pages (docs @ [pageToDocument page baseURL]))"

definition FetchPagesActivity ::
  "'ref env \<Rightarrow> FetchPagesInput \<Rightarrow> (error + 'ref FetchPagesOutput) \<times> event list" where
  "FetchPagesActivity env input =
     (let client = NewClient \<lparr>ClientConfig_BaseURL = FetchPagesInput_BaseURL input,
                             ClientConfig_Email = FetchPagesInput_Email input,
                             ClientConfig_APIToken = FetchPagesInput_APIToken input,
                             ClientConfig_Timeout = 0\<rparr>;
          limit = FetchPagesInput_Limit input;
          limit = (if limit \<le> 0 then 100 else limit)
      in case GetSpacePages env client (FetchPagesInput_SpaceKey input) limit of
           (Inl err, tr) \<Rightarrow> (Inl (Errorf_w ''get space pages'' err), tr)
         | (Inr pages, tr) \<Rightarrow>
             (let docs = FetchPages_loop (FetchPagesInput_Since input)
                           (FetchPagesInput_BaseURL input) pages []
              in case env_StoreDocuments env docs of
                   Inl err \<Rightarrow> (Inl (Errorf_w ''store documents'' err), tr @ [Store docs])
                 | Inr ref \<Rightarrow>
                     (Inr \<lparr>FetchPagesOutput_Ref = ref,
                           FetchPagesOutput_Count = int (length docs)\<rparr>, tr @ [Store docs])))"

record FetchPageInput =
  FetchPageInput_BaseURL :: string
  FetchPageInput_Email :: string
  FetchPageInput_APIToken :: string
  FetchPageInput_PageID :: string

record FetchPageOutput =
  FetchPageOutput_Document :: Document
  FetchPageOutput_Found :: bool

definition FetchPageActivity ::
  "'ref env \<Rightarrow> FetchPageInput \<Rightarrow> (error + FetchPageOutput) \<times> event list" where
  "FetchPageActivity env input =
     (let client = NewClient \<lparr>ClientConfig_BaseURL = FetchPageInput_BaseURL input,
                             ClientConfig_Email = FetchPageInput_Email input,
                             ClientConfig_APIToken = FetchPageInput_APIToken input,
                             ClientConfig_Timeout = 0\<rparr>
      in case GetPage env client (FetchPageInput_PageID input) of
           (Inl err, tr) \<Rightarrow> (Inl (Errorf_w ''get page'' err), tr)
         | (Inr page, tr) \<Rightarrow>
             (Inr \<lparr>FetchPageOutput_Document = pageToDocument page (FetchPageInput_BaseURL input),
                   FetchPageOutput_Found = True\<rparr>, tr))"

record SearchCQLInput =
  SearchCQLInput_BaseURL :: string
  SearchCQLInput_Email :: string
  SearchCQLInput_APIToken :: string
  SearchCQLInput_CQL :: string
  SearchCQLInput_Limit :: int

record 'ref SearchCQLOutput =
  SearchCQLOutput_Ref :: 'ref
  SearchCQLOutput_Count :: int

text \<open>The loop of \<^verbatim>\<open>SearchCQLActivity\<close> over the result items.\<close>

fun SearchCQL_loop :: "string \<Rightarrow> SearchResultItem list \<Rightarrow> Document list \<Rightarrow> Document list" where
  "SearchCQL_loop baseURL [] docs = docs"
| "SearchCQL_loop baseURL (item # items) docs =
     SearchCQL_loop baseURL items (docs @ [pageToDocument (SearchResultItem_Content item) baseURL])"

definition SearchCQLActivity ::
  "'ref env \<Rightarrow> SearchCQLInput \<Rightarrow> (error + 'ref SearchCQLOutput) \<times> event list" where
  "SearchCQLActivity env input =
     (let client = NewClient \<lparr>ClientConfig_BaseURL = SearchCQLInput_BaseURL input,
                             ClientConfig_Email = SearchCQLInput_Email input,
                             ClientConfig_APIToken = SearchCQLInput_APIToken input,
                             ClientConfig_Timeout = 0\<rparr>;
          limit = SearchCQLInput_Limit input;
          limit = (if limit \<le> 0 then 100 else limit)
      in case SearchCQL env client (SearchCQLInput_CQL input) limit of
           (Inl err, tr) \<Rightarrow> (Inl (Errorf_w ''search cql'' err), tr)
         | (Inr result, tr) \<Rightarrow>
             (let docs = SearchCQL_loop (SearchCQLInput_BaseURL input)
                           (SearchResult_Results result) []
              in case env_StoreDocuments env docs of
                   Inl err \<Rightarrow> (Inl (Errorf_w ''store documents'' err), tr @ [Store docs])
                 | Inr ref \<Rightarrow>
                     (Inr \<lparr>SearchCQLOutput_Ref = ref,
                           SearchCQLOutput_Count = int (length docs)\<rparr>, tr @ [Store docs])))"


section \<open>Notions used to state the properties\<close>

text \<open>The client and the limit an operation hands to the client, and the call it makes.\<close>

abbreviation FetchPages_client :: "FetchPagesInput \<Rightarrow> Client" where
  "FetchPages_client input \<equiv>
     NewClient \<lparr>ClientConfig_BaseURL = FetchPagesInput_BaseURL input,
                ClientConfig_Email = FetchPagesInput_Email input,
                ClientConfig_APIToken = FetchPagesInput_APIToken input,
                ClientConfig_Timeout = 0\<rparr>"

abbreviation FetchPages_limit :: "FetchPagesInput \<Rightarrow> int" where
  "FetchPages_limit input \<equiv>
     (if FetchPagesInput_Limit input \<le> 0 then 100 else FetchPagesInput_Limit input)"

abbreviation FetchPages_fetch :: "'ref env \<Rightarrow> FetchPagesInput \<Rightarrow> (error + Page list) \<times> event list" where
  "FetchPages_fetch env input \<equiv>
     GetSpacePages env (FetchPages_client input) (FetchPagesInput_SpaceKey input)
       (FetchPages_limit input)"

abbreviation FetchPage_client :: "FetchPageInput \<Rightarrow> Client" where
  "FetchPage_client input \<equiv>
     NewClient \<lparr>ClientConfig_BaseURL = FetchPageInput_BaseURL input,
                ClientConfig_Email = FetchPageInput_Email input,
                ClientConfig_APIToken = FetchPageInput_APIToken input,
                ClientConfig_Timeout = 0\<rparr>"

abbreviation SearchCQL_client :: "SearchCQLInput \<Rightarrow> Client" where
  "SearchCQL_client input \<equiv>
     NewClient \<lparr>ClientConfig_BaseURL = SearchCQLInput_BaseURL input,
                ClientConfig_Email = SearchCQLInput_Email input,
                ClientConfig_APIToken = SearchCQLInput_APIToken input,
                ClientConfig_Timeout = 0\<rparr>"

abbreviation SearchCQL_limit :: "SearchCQLInput \<Rightarrow> int" where
  "SearchCQL_limit input \<equiv>
     (if SearchCQLInput_Limit input \<le> 0 then 100 else SearchCQLInput_Limit input)"

abbreviation SearchCQL_fetch :: "'ref env \<Rightarrow> SearchCQLInput \<Rightarrow> (error + SearchResult) \<times> event list" where
  "SearchCQL_fetch env input \<equiv>
     SearchCQL env (SearchCQL_client input) (SearchCQLInput_CQL input) (SearchCQL_limit input)"

text \<open>A page stays in the batch when the loop of \<^verbatim>\<open>FetchPagesActivity\<close> does not skip it.\<close>

abbreviation remains :: "Time option \<Rightarrow> Page \<Rightarrow> bool" where
  "remains since page \<equiv>
     \<not> (since \<noteq> None \<and> Before (Version_CreatedAt (Page_Version page)) (the since))"

text \<open>The number a string of decimal digits denotes.\<close>

definition decimalValue :: "string \<Rightarrow> nat" where
  "decimalValue ds = foldl (\<lambda>acc c. 10 * acc + (of_char c - 48)) 0 ds"

text \<open>The value of \<^verbatim>\<open>text\<close> in \<^verbatim>\<open>stripHTML\<close> when \<^verbatim>\<open>strings.Fields\<close> is called: the
  input after the removal of the tags and the five replacements.\<close>

definition stripHTML_text :: "string \<Rightarrow> string" where
  "stripHTML_text html =
     (let text = htmlTagRegex_ReplaceAllString html '' '';
          text = ReplaceAll text ''&nbsp;'' '' '';
          text = ReplaceAll text ''&amp;'' ''&'';
          text = ReplaceAll text ''&lt;'' ''<'';
          text = ReplaceAll text ''&gt;'' ''>'';
          text = ReplaceAll text ''&quot;'' [CHR 0x22]
      in text)"

text \<open>A text has a tag when some \<^verbatim>\<open><\<close> is followed, after characters other than \<^verbatim>\<open>>\<close>,
  by a \<^verbatim>\<open>>\<close>: that is, when some \<^verbatim>\<open><\<close> has a \<^verbatim>\<open>>\<close> behind it.\<close>

fun hasTag :: "string \<Rightarrow> bool" where
  "hasTag [] = False"
| "hasTag (c # cs) = ((c = CHR ''<'' \<and> CHR ''>'' \<in> set cs) \<or> hasTag cs)"

text \<open>Two whitespace code points side by side; a whitespace code point at the head.\<close>

fun adjacentSpaces :: "nat list \<Rightarrow> bool" where
  "adjacentSpaces (a # b # rs) = ((IsSpace a \<and> IsSpace b) \<or> adjacentSpaces (b # rs))"
| "adjacentSpaces rs = False"

fun leadingSpace :: "nat list \<Rightarrow> bool" where
  "leadingSpace [] = False"
| "leadingSpace (r # rs) = IsSpace r"

text \<open>Notions of the proofs about \<^verbatim>\<open>strings.Fields\<close>: a continuation byte of UTF-8; a
  text that does not start with one; a non-empty text whose code points are all not
  whitespace.\<close>

definition cont :: "char \<Rightarrow> bool" where
  "cont c = (0x80 \<le> (of_char c :: nat) \<and> (of_char c :: nat) \<le> 0xBF)"

definition okstart :: "string \<Rightarrow> bool" where
  "okstart s = (case s of [] \<Rightarrow> True | c # _ \<Rightarrow> \<not> cont c)"

definition solid :: "string \<Rightarrow> bool" where
  "solid w = (w \<noteq> [] \<and> (\<forall>x \<in> set (runes w). \<not> IsSpace x))"




text \<open>The recursive equations are unfolded by hand in the proofs.\<close>

declare FieldsFunc.simps [simp del] runes.simps [simp del] ReplaceAll.simps [simp del]
  htmlTagRegex_ReplaceAllString.simps [simp del] digitsOf.simps [simp del]

section \<open>Example values\<close>

definition example_page :: "string \<Rightarrow> int \<Rightarrow> string \<Rightarrow> string \<Rightarrow> Page" where
  "example_page ident created storage view =
     \<lparr>Page_ID = ident, Page_Type = ''page'', Page_Status = ''current'', Page_Title = ''Notes'',
      Page_Space = \<lparr>Space_ID = 7, Space_Key = ''ENG'', Space_Name = ''Engineering''\<rparr>,
      Page_Body = \<lparr>Body_Storage = \<lparr>StorageBody_Value = storage\<rparr>,
                   Body_View = \<lparr>ViewBody_Value = view\<rparr>\<rparr>,
      Page_Version = \<lparr>Version_Number = 3, Version_When = ''2024-01-01'',
                      Version_CreatedAt = \<lparr>Time_sec = created, Time_nsec = 0\<rparr>\<rparr>,
      Page_Links = \<lparr>PageLinks_WebUI = ''/spaces/ENG/pages/1'', PageLinks_Self = ''/rest/1''\<rparr>\<rparr>"

definition example_pages :: "Page list" where
  "example_pages =
     [example_page ''1'' 10 ''<p>a</p>'' [], example_page ''2'' 20 ''<p>b</p>'' [],
      example_page ''3'' 30 ''<p>c</p>'' []]"

definition example_result :: SearchResult where
  "example_result =
     \<lparr>SearchResult_Results =
        [\<lparr>SearchResultItem_Content = example_page ''1'' 10 ''<p>a</p>'' [],
          SearchResultItem_Title = ''a'', SearchResultItem_Excerpt = [],
          SearchResultItem_URL = [], SearchResultItem_ResultType = []\<rparr>],
      SearchResult_Start = 0, SearchResult_Limit = 100, SearchResult_Size = 1\<rparr>"

text \<open>A server that answers every request with the given status, and a store that returns
  the size of the batch as its reference.\<close>

definition example_env :: "int \<Rightarrow> nat env" where
  "example_env status =
     \<lparr>env_NewRequestError = (\<lambda>method url. None),
      env_Do = (\<lambda>timeout req. Inr \<lparr>Response_StatusCode = status, Response_Body = ''body''\<rparr>),
      env_DecodeSearchResult = (\<lambda>body. Inr example_result),
      env_DecodePage = (\<lambda>body. Inr (example_page ''1'' 10 ''<p>a</p>'' [])),
      env_DecodePages = (\<lambda>body. Inr example_pages),
      env_StoreDocuments = (\<lambda>docs. Inr (length docs))\<rparr>"

definition example_FetchPagesInput :: "Time option \<Rightarrow> int \<Rightarrow> FetchPagesInput" where
  "example_FetchPagesInput since limit =
     \<lparr>FetchPagesInput_BaseURL = ''https://wiki'', FetchPagesInput_Email = ''a@b'',
      FetchPagesInput_APIToken = ''t'', FetchPagesInput_SpaceKey = ''ENG'',
      FetchPagesInput_Since = since, FetchPagesInput_Limit = limit\<rparr>"

definition example_FetchPageInput :: FetchPageInput where
  "example_FetchPageInput =
     \<lparr>FetchPageInput_BaseURL = ''https://wiki'', FetchPageInput_Email = ''a@b'',
      FetchPageInput_APIToken = ''t'', FetchPageInput_PageID = ''1''\<rparr>"

definition example_SearchCQLInput :: "int \<Rightarrow> SearchCQLInput" where
  "example_SearchCQLInput limit =
     \<lparr>SearchCQLInput_BaseURL = ''https://wiki'', SearchCQLInput_Email = ''a@b'',
      SearchCQLInput_APIToken = ''t'', SearchCQLInput_CQL = ''type = page'',
      SearchCQLInput_Limit = limit\<rparr>"

definition example_request :: "string \<Rightarrow> Request" where
  "example_request url =
     \<lparr>Request_Method = ''GET'', Request_URL = url,
      Request_BasicAuth = Some (''a@b'', ''t''),
      Request_Header = [(''Accept'', ''application/json''), (''Content-Type'', ''application/json'')]\<rparr>"


section \<open>The client and the operations\<close>

subsection \<open>What a client method returns and records\<close>

lemma Request_URL_setAuth: "Request_URL (setAuth c req) = Request_URL req"
  by (simp add: setAuth_def Let_def)

lemma NewClient_timeout:
  "Client_httpClient_Timeout (NewClient \<lparr>ClientConfig_BaseURL = b, ClientConfig_Email = e,
      ClientConfig_APIToken = a, ClientConfig_Timeout = 0\<rparr>) = 30 * Second"
  "Client_baseURL (NewClient \<lparr>ClientConfig_BaseURL = b, ClientConfig_Email = e,
      ClientConfig_APIToken = a, ClientConfig_Timeout = 0\<rparr>) = b"
  by (simp_all add: NewClient_def Let_def)

lemma GetSpacePages_trace:
  assumes "HTTPDo req \<in> set (snd (GetSpacePages env c spaceKey limit0))"
  shows "snd (GetSpacePages env c spaceKey limit0) = [HTTPDo req]"
    and "Request_URL req = GetSpacePages_endpoint c spaceKey (if limit0 \<le> 0 then 25 else limit0)"
  using assms unfolding GetSpacePages_def NewRequestWithContext_def Let_def
  by (simp_all add: Request_URL_setAuth split: option.splits sum.splits if_splits)

lemma GetSpacePages_status:
  assumes "HTTPDo req \<in> set (snd (GetSpacePages env c spaceKey limit0))"
    and "env_Do env (Client_httpClient_Timeout c) req = Inr resp"
    and "Response_StatusCode resp \<noteq> StatusOK"
  shows "fst (GetSpacePages env c spaceKey limit0)
           = Inl (Errorf_status_body (Response_StatusCode resp) (Response_Body resp))"
  using assms unfolding GetSpacePages_def NewRequestWithContext_def Let_def
  by (auto split: option.splits sum.splits if_splits)

lemma GetSpacePages_no_store: "Store docs \<notin> set (snd (GetSpacePages env c spaceKey limit0))"
  unfolding GetSpacePages_def NewRequestWithContext_def Let_def
  by (simp split: option.splits sum.splits if_splits)

lemma SearchCQL_trace:
  assumes "HTTPDo req \<in> set (snd (SearchCQL env c cql limit0))"
  shows "snd (SearchCQL env c cql limit0) = [HTTPDo req]"
    and "Request_URL req = SearchCQL_endpoint c cql (if limit0 \<le> 0 then 25 else limit0)"
  using assms unfolding SearchCQL_def NewRequestWithContext_def Let_def
  by (simp_all add: Request_URL_setAuth split: option.splits sum.splits if_splits)

lemma SearchCQL_status:
  assumes "HTTPDo req \<in> set (snd (SearchCQL env c cql limit0))"
    and "env_Do env (Client_httpClient_Timeout c) req = Inr resp"
    and "Response_StatusCode resp \<noteq> StatusOK"
  shows "fst (SearchCQL env c cql limit0)
           = Inl (Errorf_status_body (Response_StatusCode resp) (Response_Body resp))"
  using assms unfolding SearchCQL_def NewRequestWithContext_def Let_def
  by (auto split: option.splits sum.splits if_splits)

lemma SearchCQL_no_store: "Store docs \<notin> set (snd (SearchCQL env c cql limit0))"
  unfolding SearchCQL_def NewRequestWithContext_def Let_def
  by (simp split: option.splits sum.splits if_splits)

lemma GetPage_trace:
  assumes "HTTPDo req \<in> set (snd (GetPage env c pageID))"
  shows "snd (GetPage env c pageID) = [HTTPDo req]"
    and "Request_URL req = GetPage_endpoint c pageID"
  using assms unfolding GetPage_def NewRequestWithContext_def Let_def
  by (simp_all add: Request_URL_setAuth split: option.splits sum.splits if_splits)

lemma GetPage_status:
  assumes "HTTPDo req \<in> set (snd (GetPage env c pageID))"
    and "env_Do env (Client_httpClient_Timeout c) req = Inr resp"
    and "Response_StatusCode resp \<noteq> StatusOK"
  shows "fst (GetPage env c pageID)
           = Inl (Errorf_status_body (Response_StatusCode resp) (Response_Body resp))"
  using assms unfolding GetPage_def NewRequestWithContext_def Let_def
  by (auto split: option.splits sum.splits if_splits)

lemma GetPage_no_store: "Store docs \<notin> set (snd (GetPage env c pageID))"
  unfolding GetPage_def NewRequestWithContext_def Let_def
  by (simp split: option.splits sum.splits if_splits)

subsection \<open>The operations in terms of the client call\<close>

lemma FetchPages_loop_eq:
  "FetchPages_loop since baseURL pages docs =
     docs @ map (\<lambda>p. pageToDocument p baseURL) (filter (remains since) pages)"
  by (induction pages arbitrary: docs) simp_all

lemma SearchCQL_loop_eq:
  "SearchCQL_loop baseURL items docs =
     docs @ map (\<lambda>i. pageToDocument (SearchResultItem_Content i) baseURL) items"
  by (induction items arbitrary: docs) simp_all

lemma FetchPagesActivity_fetched:
  assumes "fst (FetchPages_fetch env input) = Inr pages"
  shows "FetchPagesActivity env input =
     (let docs = map (\<lambda>p. pageToDocument p (FetchPagesInput_BaseURL input))
                   (filter (remains (FetchPagesInput_Since input)) pages)
      in (case env_StoreDocuments env docs of
            Inl err \<Rightarrow> Inl (Errorf_w ''store documents'' err)
          | Inr ref \<Rightarrow> Inr \<lparr>FetchPagesOutput_Ref = ref, FetchPagesOutput_Count = int (length docs)\<rparr>,
          snd (FetchPages_fetch env input) @ [Store docs]))"
proof -
  obtain tr where "FetchPages_fetch env input = (Inr pages, tr)"
    using assms by (metis prod.collapse)
  then show ?thesis
    by (simp add: FetchPagesActivity_def Let_def FetchPages_loop_eq split: sum.splits)
qed

lemma FetchPagesActivity_failed:
  assumes "fst (FetchPages_fetch env input) = Inl err"
  shows "FetchPagesActivity env input =
           (Inl (Errorf_w ''get space pages'' err), snd (FetchPages_fetch env input))"
proof -
  obtain tr where "FetchPages_fetch env input = (Inl err, tr)"
    using assms by (metis prod.collapse)
  then show ?thesis
    by (simp add: FetchPagesActivity_def Let_def)
qed

lemma FetchPagesActivity_requests:
  "HTTPDo req \<in> set (snd (FetchPagesActivity env input))
     \<longleftrightarrow> HTTPDo req \<in> set (snd (FetchPages_fetch env input))"
  by (cases "fst (FetchPages_fetch env input)")
     (simp_all add: FetchPagesActivity_fetched FetchPagesActivity_failed Let_def)

lemma SearchCQLActivity_fetched:
  assumes "fst (SearchCQL_fetch env input) = Inr result"
  shows "SearchCQLActivity env input =
     (let docs = map (\<lambda>i. pageToDocument (SearchResultItem_Content i) (SearchCQLInput_BaseURL input))
                   (SearchResult_Results result)
      in (case env_StoreDocuments env docs of
            Inl err \<Rightarrow> Inl (Errorf_w ''store documents'' err)
          | Inr ref \<Rightarrow> Inr \<lparr>SearchCQLOutput_Ref = ref, SearchCQLOutput_Count = int (length docs)\<rparr>,
          snd (SearchCQL_fetch env input) @ [Store docs]))"
proof -
  obtain tr where "SearchCQL_fetch env input = (Inr result, tr)"
    using assms by (metis prod.collapse)
  then show ?thesis
    by (simp add: SearchCQLActivity_def Let_def SearchCQL_loop_eq split: sum.splits)
qed

lemma SearchCQLActivity_failed:
  assumes "fst (SearchCQL_fetch env input) = Inl err"
  shows "SearchCQLActivity env input =
           (Inl (Errorf_w ''search cql'' err), snd (SearchCQL_fetch env input))"
proof -
  obtain tr where "SearchCQL_fetch env input = (Inl err, tr)"
    using assms by (metis prod.collapse)
  then show ?thesis
    by (simp add: SearchCQLActivity_def Let_def)
qed

lemma SearchCQLActivity_requests:
  "HTTPDo req \<in> set (snd (SearchCQLActivity env input))
     \<longleftrightarrow> HTTPDo req \<in> set (snd (SearchCQL_fetch env input))"
  by (cases "fst (SearchCQL_fetch env input)")
     (simp_all add: SearchCQLActivity_fetched SearchCQLActivity_failed Let_def)

lemma FetchPageActivity_eq:
  "FetchPageActivity env input =
     (case fst (GetPage env (FetchPage_client input) (FetchPageInput_PageID input)) of
        Inl err \<Rightarrow> Inl (Errorf_w ''get page'' err)
      | Inr page \<Rightarrow> Inr \<lparr>FetchPageOutput_Document = pageToDocument page (FetchPageInput_BaseURL input),
                          FetchPageOutput_Found = True\<rparr>,
      snd (GetPage env (FetchPage_client input) (FetchPageInput_PageID input)))"
  by (cases "GetPage env (FetchPage_client input) (FetchPageInput_PageID input)")
     (simp add: FetchPageActivity_def Let_def split: sum.splits)

subsection \<open>Decimal formatting\<close>

text \<open>\<^verbatim>\<open>%d\<close> writes a number that is not negative as its decimal digits.\<close>

lemma digitsOf_decimal:
  "decimalValue (digitsOf n) = n
   \<and> (\<forall>c \<in> set (digitsOf n). 48 \<le> (of_char c :: nat) \<and> (of_char c :: nat) \<le> 57)"
proof (induction n rule: digitsOf.induct)
  case (1 n)
  show ?case
  proof (cases "n < 10")
    case True
    then show ?thesis by (simp add: digitsOf.simps [of n] decimalValue_def)
  next
    case False
    have m: "(48 + n mod 10) mod 256 = 48 + n mod 10"
      by (simp add: mod_less less_le_trans [of _ 58])
    from 1 [OF False] show ?thesis
      using False by (simp add: digitsOf.simps [of n] decimalValue_def m)
  qed
qed

lemma Sprintf_d_nonneg: "0 \<le> i \<Longrightarrow> decimalValue (Sprintf_d i) = nat i"
  by (simp add: Sprintf_d_def digitsOf_decimal)

subsection \<open>The example values\<close>

lemma example_inputs:
  "FetchPagesInput_BaseURL (example_FetchPagesInput since l) = ''https://wiki''"
  "FetchPagesInput_Email (example_FetchPagesInput since l) = ''a@b''"
  "FetchPagesInput_APIToken (example_FetchPagesInput since l) = ''t''"
  "FetchPagesInput_SpaceKey (example_FetchPagesInput since l) = ''ENG''"
  "FetchPagesInput_Since (example_FetchPagesInput since l) = since"
  "FetchPagesInput_Limit (example_FetchPagesInput since l) = l"
  "SearchCQLInput_BaseURL (example_SearchCQLInput l) = ''https://wiki''"
  "SearchCQLInput_Email (example_SearchCQLInput l) = ''a@b''"
  "SearchCQLInput_APIToken (example_SearchCQLInput l) = ''t''"
  "SearchCQLInput_CQL (example_SearchCQLInput l) = ''type = page''"
  "SearchCQLInput_Limit (example_SearchCQLInput l) = l"
  "FetchPageInput_BaseURL example_FetchPageInput = ''https://wiki''"
  "FetchPageInput_Email example_FetchPageInput = ''a@b''"
  "FetchPageInput_APIToken example_FetchPageInput = ''t''"
  "FetchPageInput_PageID example_FetchPageInput = ''1''"
  by (simp_all add: example_FetchPagesInput_def example_SearchCQLInput_def example_FetchPageInput_def)

lemma example_page_bodies:
  "StorageBody_Value (Body_Storage (Page_Body (example_page i t s v))) = s"
  "ViewBody_Value (Body_View (Page_Body (example_page i t s v))) = v"
  by (simp_all add: example_page_def)

lemma example_strips:
  "stripHTML [] = []" "stripHTML ''<b>Fallback</b>'' = ''Fallback''"
  "stripHTML ''<p> </p>'' = []" "stripHTML ''&nbsp;'' = []" "stripHTML ''<p>a</p>'' = ''a''"
  by code_simp+

lemma example_Do:
  "env_Do (example_env st) t r = Inr \<lparr>Response_StatusCode = st, Response_Body = ''body''\<rparr>"
  "env_StoreDocuments (example_env st) docs = Inr (length docs)"
  by (simp_all add: example_env_def)

lemma example_fetch:
  "fst (GetSpacePages (example_env 200) c k l) = Inr example_pages"
  "snd (GetSpacePages (example_env st) c k l) =
     [HTTPDo (setAuth c \<lparr>Request_Method = ''GET'',
        Request_URL = GetSpacePages_endpoint c k (if l \<le> 0 then 25 else l),
        Request_BasicAuth = None, Request_Header = []\<rparr>)]"
  by (simp_all add: GetSpacePages_def NewRequestWithContext_def example_env_def Let_def StatusOK_def)

lemma example_search:
  "fst (SearchCQL (example_env 200) c q l) = Inr example_result"
  "snd (SearchCQL (example_env st) c q l) =
     [HTTPDo (setAuth c \<lparr>Request_Method = ''GET'',
        Request_URL = SearchCQL_endpoint c q (if l \<le> 0 then 25 else l),
        Request_BasicAuth = None, Request_Header = []\<rparr>)]"
  by (simp_all add: SearchCQL_def NewRequestWithContext_def example_env_def Let_def StatusOK_def)

lemma example_getpage:
  "snd (GetPage (example_env st) c i) =
     [HTTPDo (setAuth c \<lparr>Request_Method = ''GET'',
        Request_URL = GetPage_endpoint c i,
        Request_BasicAuth = None, Request_Header = []\<rparr>)]"
  by (simp_all add: GetPage_def NewRequestWithContext_def example_env_def Let_def StatusOK_def)

lemma example_setAuth:
  "setAuth (NewClient \<lparr>ClientConfig_BaseURL = b, ClientConfig_Email = ''a@b'',
      ClientConfig_APIToken = ''t'', ClientConfig_Timeout = 0\<rparr>)
     \<lparr>Request_Method = ''GET'', Request_URL = url, Request_BasicAuth = None, Request_Header = []\<rparr>
   = example_request url"
  by (simp add: setAuth_def NewClient_def Let_def Header_Set_def example_request_def)

lemma example_endpoints:
  "GetSpacePages_endpoint (FetchPages_client (example_FetchPagesInput since 0)) ''ENG'' 100
     = ''https://wiki/wiki/rest/api/content?spaceKey=ENG&limit=100&expand=body.storage,space,version''"
  "SearchCQL_endpoint (SearchCQL_client (example_SearchCQLInput 0)) ''type = page'' 100
     = ''https://wiki/wiki/rest/api/search?cql=type+%3D+page&limit=100&expand=content.body.storage,content.space,content.version''"
  "GetPage_endpoint (FetchPage_client example_FetchPageInput) ''1''
     = ''https://wiki/wiki/rest/api/content/1?expand=body.storage,space,version''"
  by code_simp+

lemma example_traces:
  "snd (FetchPages_fetch (example_env st) (example_FetchPagesInput since 0)) =
     [HTTPDo (example_request
        ''https://wiki/wiki/rest/api/content?spaceKey=ENG&limit=100&expand=body.storage,space,version'')]"
  "snd (SearchCQL_fetch (example_env st) (example_SearchCQLInput 0)) =
     [HTTPDo (example_request
        ''https://wiki/wiki/rest/api/search?cql=type+%3D+page&limit=100&expand=content.body.storage,content.space,content.version'')]"
  "snd (GetPage (example_env st) (FetchPage_client example_FetchPageInput) (FetchPageInput_PageID example_FetchPageInput)) =
     [HTTPDo (example_request
        ''https://wiki/wiki/rest/api/content/1?expand=body.storage,space,version'')]"
proof -
  have l: "(if (100::int) \<le> 0 then 25 else 100) = 100" by simp
  show "snd (FetchPages_fetch (example_env st) (example_FetchPagesInput since 0)) =
     [HTTPDo (example_request
        ''https://wiki/wiki/rest/api/content?spaceKey=ENG&limit=100&expand=body.storage,space,version'')]"
    using example_endpoints(1) [of since]
    by (simp only: example_fetch(2) example_inputs example_setAuth if_True order_refl l)
  show "snd (SearchCQL_fetch (example_env st) (example_SearchCQLInput 0)) =
     [HTTPDo (example_request
        ''https://wiki/wiki/rest/api/search?cql=type+%3D+page&limit=100&expand=content.body.storage,content.space,content.version'')]"
    using example_endpoints(2)
    by (simp only: example_search(2) example_inputs example_setAuth if_True order_refl l)
  show "snd (GetPage (example_env st) (FetchPage_client example_FetchPageInput) (FetchPageInput_PageID example_FetchPageInput)) =
     [HTTPDo (example_request
        ''https://wiki/wiki/rest/api/content/1?expand=body.storage,space,version'')]"
    using example_endpoints(3)
    by (simp only: example_getpage example_inputs example_setAuth)
qed

lemma example_error_text:
  "Errorf_w ''get space pages'' (Errorf_status_body 503 ''body'')
     = ''get space pages: confluence API error: status=503 body=body''"
  by code_simp

lemma Sprintf_d_100: "Sprintf_d 100 = ''100''"
  by code_simp

subsection \<open>Properties of the operations\<close>

text \<open>
  Claim C1. When the space's pages were fetched and a cutoff \<open>since\<close> is given,
  \<^verbatim>\<open>FetchPagesActivity\<close> hands to the store, in order, the documents of exactly those pages whose
  version creation instant is not before \<open>since\<close>: a page is left out if and only if its
  instant is strictly before the cutoff, and a page created at the cutoff itself stays in.
\<close>

theorem FetchPages_time_filter:
  assumes "fst (FetchPages_fetch env input) = Inr pages"
    and "FetchPagesInput_Since input = Some since"
  shows "snd (FetchPagesActivity env input) =
           snd (FetchPages_fetch env input)
           @ [Store (map (\<lambda>p. pageToDocument p (FetchPagesInput_BaseURL input))
                      (filter (\<lambda>p. \<not> Before (Version_CreatedAt (Page_Version p)) since) pages))]
         \<and> (\<forall>p \<in> set pages. Version_CreatedAt (Page_Version p) = since \<longrightarrow>
               p \<in> set (filter (\<lambda>p. \<not> Before (Version_CreatedAt (Page_Version p)) since) pages))"
  using assms by (simp add: FetchPagesActivity_fetched Let_def Before_def)

theorem FetchPages_time_filter_witness:
  "fst (FetchPages_fetch (example_env 200)
          (example_FetchPagesInput (Some \<lparr>Time_sec = 20, Time_nsec = 0\<rparr>) 0)) = Inr example_pages
   \<and> FetchPagesInput_Since (example_FetchPagesInput (Some \<lparr>Time_sec = 20, Time_nsec = 0\<rparr>) 0)
       = Some \<lparr>Time_sec = 20, Time_nsec = 0\<rparr>
   \<and> (\<exists>tr. snd (FetchPagesActivity (example_env 200)
          (example_FetchPagesInput (Some \<lparr>Time_sec = 20, Time_nsec = 0\<rparr>) 0)) =
        tr @ [Store (map (\<lambda>p. pageToDocument p ''https://wiki'')
                  [example_page ''2'' 20 ''<p>b</p>'' [], example_page ''3'' 30 ''<p>c</p>'' []])])"
proof -
  let ?input = "example_FetchPagesInput (Some \<lparr>Time_sec = 20, Time_nsec = 0\<rparr>) 0"
  have h1: "fst (FetchPages_fetch (example_env 200) ?input) = Inr example_pages"
    by (rule example_fetch(1))
  have h2: "FetchPagesInput_Since ?input = Some \<lparr>Time_sec = 20, Time_nsec = 0\<rparr>"
    by (simp add: example_FetchPagesInput_def)
  have h3: "filter (\<lambda>p. \<not> Before (Version_CreatedAt (Page_Version p)) \<lparr>Time_sec = 20, Time_nsec = 0\<rparr>)
              example_pages
            = [example_page ''2'' 20 ''<p>b</p>'' [], example_page ''3'' 30 ''<p>c</p>'' []]"
    by (simp add: example_pages_def example_page_def Before_def)
  have h4: "FetchPagesInput_BaseURL ?input = ''https://wiki''"
    by (simp add: example_FetchPagesInput_def)
  from FetchPages_time_filter [OF h1 h2] h1 h2 show ?thesis
    unfolding h3 h4 by blast
qed

text \<open>
  Claim C4. The content of the document is the stripped storage body when that is not
  empty, and the stripped view body exactly when the storage body strips to the empty string;
  when both strip to the empty string the content is empty. \<^verbatim>\<open>pageToDocument\<close> returns a
  document for every page: it has no error result.
\<close>

theorem pageToDocument_content:
  "Document_Content (pageToDocument page baseURL) =
     (if stripHTML (StorageBody_Value (Body_Storage (Page_Body page))) = []
      then stripHTML (ViewBody_Value (Body_View (Page_Body page)))
      else stripHTML (StorageBody_Value (Body_Storage (Page_Body page))))
   \<and> (stripHTML (StorageBody_Value (Body_Storage (Page_Body page))) = []
        \<and> stripHTML (ViewBody_Value (Body_View (Page_Body page))) = []
      \<longrightarrow> Document_Content (pageToDocument page baseURL) = [])"
  by (simp add: pageToDocument_def Let_def)

theorem pageToDocument_content_witness:
  "stripHTML (StorageBody_Value (Body_Storage (Page_Body (example_page ''1'' 10 ''<p> </p>'' ''&nbsp;'')))) = []
   \<and> stripHTML (ViewBody_Value (Body_View (Page_Body (example_page ''1'' 10 ''<p> </p>'' ''&nbsp;'')))) = []
   \<and> Document_Content (pageToDocument (example_page ''1'' 10 ''<p> </p>'' ''&nbsp;'') ''https://wiki'') = []
   \<and> Document_Content (pageToDocument (example_page ''1'' 10 [] ''<b>Fallback</b>'') ''https://wiki'')
       = ''Fallback''
   \<and> Document_Content (pageToDocument (example_page ''1'' 10 ''<p>a</p>'' ''<b>Fallback</b>'') ''https://wiki'')
       = ''a''"
  using pageToDocument_content [of "example_page ''1'' 10 ''<p> </p>'' ''&nbsp;''" "''https://wiki''"]
        pageToDocument_content [of "example_page ''1'' 10 [] ''<b>Fallback</b>''" "''https://wiki''"]
        pageToDocument_content [of "example_page ''1'' 10 ''<p>a</p>'' ''<b>Fallback</b>''" "''https://wiki''"]
  by (simp add: example_page_bodies example_strips)

text \<open>
  Claim C5. The identifier of the document is the identifier of the page, and its metadata
  has exactly the five keys \<^verbatim>\<open>page_id\<close>, \<^verbatim>\<open>space_key\<close>, \<^verbatim>\<open>space_name\<close>, \<^verbatim>\<open>status\<close> and
  \<^verbatim>\<open>version\<close>, bound to the page's identifier, space key, space name, status and the
  version number in decimal.
\<close>

theorem pageToDocument_identifier_metadata:
  "Document_ID (pageToDocument page baseURL) = Page_ID page
   \<and> dom (Document_Metadata (pageToDocument page baseURL))
       = {''page_id'', ''space_key'', ''space_name'', ''status'', ''version''}
   \<and> card (dom (Document_Metadata (pageToDocument page baseURL))) = 5
   \<and> Document_Metadata (pageToDocument page baseURL) ''page_id'' = Some (Page_ID page)
   \<and> Document_Metadata (pageToDocument page baseURL) ''space_key'' = Some (Space_Key (Page_Space page))
   \<and> Document_Metadata (pageToDocument page baseURL) ''space_name'' = Some (Space_Name (Page_Space page))
   \<and> Document_Metadata (pageToDocument page baseURL) ''status'' = Some (Page_Status page)
   \<and> Document_Metadata (pageToDocument page baseURL) ''version''
       = Some (Sprintf_d (Version_Number (Page_Version page)))"
  by (simp add: pageToDocument_def Let_def insert_commute)

text \<open>
  Claim C6. When \<^verbatim>\<open>FetchPagesActivity\<close> succeeds, its count is the number of documents of the
  one store call, which is the number of fetched pages that remain after the time filter; when
  \<^verbatim>\<open>SearchCQLActivity\<close> succeeds, its count is the number of documents of the one store call,
  which is the number of result items.
\<close>

theorem stored_count:
  "(fst (FetchPagesActivity env input) = Inr out \<longrightarrow>
      (\<exists>pages docs.
         fst (FetchPages_fetch env input) = Inr pages
         \<and> snd (FetchPagesActivity env input) = snd (FetchPages_fetch env input) @ [Store docs]
         \<and> FetchPagesOutput_Count out = int (length docs)
         \<and> length docs = length (filter (remains (FetchPagesInput_Since input)) pages)))
   \<and> (fst (SearchCQLActivity env sinput) = Inr sout \<longrightarrow>
      (\<exists>result docs.
         fst (SearchCQL_fetch env sinput) = Inr result
         \<and> snd (SearchCQLActivity env sinput) = snd (SearchCQL_fetch env sinput) @ [Store docs]
         \<and> SearchCQLOutput_Count sout = int (length docs)
         \<and> length docs = length (SearchResult_Results result)))"
proof (intro conjI impI)
  assume ok: "fst (FetchPagesActivity env input) = Inr out"
  show "\<exists>pages docs.
         fst (FetchPages_fetch env input) = Inr pages
         \<and> snd (FetchPagesActivity env input) = snd (FetchPages_fetch env input) @ [Store docs]
         \<and> FetchPagesOutput_Count out = int (length docs)
         \<and> length docs = length (filter (remains (FetchPagesInput_Since input)) pages)"
  proof (cases "fst (FetchPages_fetch env input)")
    case (Inl err)
    from FetchPagesActivity_failed [OF Inl] ok show ?thesis by simp
  next
    case (Inr pages)
    from FetchPagesActivity_fetched [OF Inr] ok show ?thesis
      using Inr by (auto simp: Let_def split: sum.splits)
  qed
next
  assume ok: "fst (SearchCQLActivity env sinput) = Inr sout"
  show "\<exists>result docs.
         fst (SearchCQL_fetch env sinput) = Inr result
         \<and> snd (SearchCQLActivity env sinput) = snd (SearchCQL_fetch env sinput) @ [Store docs]
         \<and> SearchCQLOutput_Count sout = int (length docs)
         \<and> length docs = length (SearchResult_Results result)"
  proof (cases "fst (SearchCQL_fetch env sinput)")
    case (Inl err)
    from SearchCQLActivity_failed [OF Inl] ok show ?thesis by simp
  next
    case (Inr result)
    from SearchCQLActivity_fetched [OF Inr] ok show ?thesis
      using Inr by (auto simp: Let_def split: sum.splits)
  qed
qed

theorem stored_count_witness:
  "fst (FetchPagesActivity (example_env 200)
          (example_FetchPagesInput (Some \<lparr>Time_sec = 20, Time_nsec = 0\<rparr>) 0))
     = Inr \<lparr>FetchPagesOutput_Ref = 2, FetchPagesOutput_Count = 2\<rparr>
   \<and> fst (SearchCQLActivity (example_env 200) (example_SearchCQLInput 0))
     = Inr \<lparr>SearchCQLOutput_Ref = 1, SearchCQLOutput_Count = 1\<rparr>
   \<and> (\<exists>docs tr. snd (FetchPagesActivity (example_env 200)
          (example_FetchPagesInput (Some \<lparr>Time_sec = 20, Time_nsec = 0\<rparr>) 0)) = tr @ [Store docs]
         \<and> int (length docs) = 2)
   \<and> (\<exists>docs tr. snd (SearchCQLActivity (example_env 200) (example_SearchCQLInput 0)) = tr @ [Store docs]
         \<and> int (length docs) = 1)"
proof -
  let ?input = "example_FetchPagesInput (Some \<lparr>Time_sec = 20, Time_nsec = 0\<rparr>) 0"
  have h1: "fst (FetchPagesActivity (example_env 200) ?input)
     = Inr \<lparr>FetchPagesOutput_Ref = 2, FetchPagesOutput_Count = 2\<rparr>"
    by (simp add: FetchPagesActivity_fetched [OF example_fetch(1)] Let_def example_Do
        example_pages_def example_page_def Before_def example_FetchPagesInput_def)
  have h2: "fst (SearchCQLActivity (example_env 200) (example_SearchCQLInput 0))
     = Inr \<lparr>SearchCQLOutput_Ref = 1, SearchCQLOutput_Count = 1\<rparr>"
    by (simp add: SearchCQLActivity_fetched [OF example_search(1)] Let_def example_Do example_result_def)
  from stored_count [of "example_env 200" ?input
      "\<lparr>FetchPagesOutput_Ref = 2, FetchPagesOutput_Count = 2\<rparr>" "example_SearchCQLInput 0"
      "\<lparr>SearchCQLOutput_Ref = 1, SearchCQLOutput_Count = 1\<rparr>"] h1 h2
  show ?thesis by (simp only: simp_thms FetchPagesOutput.simps SearchCQLOutput.simps) metis
qed

text \<open>
  Claim C7. When no fetched page remains after the time filter, \<^verbatim>\<open>FetchPagesActivity\<close> still
  makes the store call, with the empty batch, and its result is the store's: the reference
  with count 0, or the store's own error. The empty batch itself is never an error.
\<close>

theorem empty_batch_is_stored:
  assumes "fst (FetchPages_fetch env input) = Inr pages"
    and "filter (remains (FetchPagesInput_Since input)) pages = []"
  shows "snd (FetchPagesActivity env input) = snd (FetchPages_fetch env input) @ [Store []]
         \<and> fst (FetchPagesActivity env input) =
             (case env_StoreDocuments env [] of
                Inl err \<Rightarrow> Inl (Errorf_w ''store documents'' err)
              | Inr ref \<Rightarrow> Inr \<lparr>FetchPagesOutput_Ref = ref, FetchPagesOutput_Count = 0\<rparr>)"
  using assms by (simp add: FetchPagesActivity_fetched Let_def split: sum.splits)

theorem empty_batch_is_stored_witness:
  "fst (FetchPages_fetch (example_env 200)
          (example_FetchPagesInput (Some \<lparr>Time_sec = 40, Time_nsec = 0\<rparr>) 0)) = Inr example_pages
   \<and> filter (remains (FetchPagesInput_Since
               (example_FetchPagesInput (Some \<lparr>Time_sec = 40, Time_nsec = 0\<rparr>) 0))) example_pages = []
   \<and> (\<exists>tr. snd (FetchPagesActivity (example_env 200)
               (example_FetchPagesInput (Some \<lparr>Time_sec = 40, Time_nsec = 0\<rparr>) 0)) = tr @ [Store []])
   \<and> fst (FetchPagesActivity (example_env 200)
               (example_FetchPagesInput (Some \<lparr>Time_sec = 40, Time_nsec = 0\<rparr>) 0))
       = Inr \<lparr>FetchPagesOutput_Ref = 0, FetchPagesOutput_Count = 0\<rparr>"
proof -
  let ?input = "example_FetchPagesInput (Some \<lparr>Time_sec = 40, Time_nsec = 0\<rparr>) 0"
  have h1: "fst (FetchPages_fetch (example_env 200) ?input) = Inr example_pages"
    by (rule example_fetch(1))
  have h2: "filter (remains (FetchPagesInput_Since ?input)) example_pages = []"
    by (simp add: example_pages_def example_page_def Before_def example_FetchPagesInput_def)
  from empty_batch_is_stored [OF h1 h2] h1 h2 show ?thesis
    by (simp add: example_Do)
qed

text \<open>
  Claim C9. When the server answers the request of an operation with a status other than
  200, the operation returns the error that carries the status code and the response body,
  wrapped with the name of the step, and the request is the only call it has made: there is
  no store call and no output. More generally, whenever the client call fails, at whatever
  step, the operation returns the client's error and makes no store call;
  \<^verbatim>\<open>FetchPageActivity\<close> never makes one.
\<close>

theorem remote_error_aborts:
  "(HTTPDo req \<in> set (snd (FetchPagesActivity env input))
      \<and> env_Do env (30 * Second) req = Inr resp \<and> Response_StatusCode resp \<noteq> StatusOK \<longrightarrow>
    FetchPagesActivity env input =
      (Inl (Errorf_w ''get space pages''
              (Errorf_status_body (Response_StatusCode resp) (Response_Body resp))),
       [HTTPDo req]))
   \<and> (HTTPDo req \<in> set (snd (FetchPageActivity env pinput))
      \<and> env_Do env (30 * Second) req = Inr resp \<and> Response_StatusCode resp \<noteq> StatusOK \<longrightarrow>
    FetchPageActivity env pinput =
      (Inl (Errorf_w ''get page''
              (Errorf_status_body (Response_StatusCode resp) (Response_Body resp))),
       [HTTPDo req]))
   \<and> (HTTPDo req \<in> set (snd (SearchCQLActivity env sinput))
      \<and> env_Do env (30 * Second) req = Inr resp \<and> Response_StatusCode resp \<noteq> StatusOK \<longrightarrow>
    SearchCQLActivity env sinput =
      (Inl (Errorf_w ''search cql''
              (Errorf_status_body (Response_StatusCode resp) (Response_Body resp))),
       [HTTPDo req]))
   \<and> (fst (FetchPages_fetch env input) = Inl err \<longrightarrow>
        fst (FetchPagesActivity env input) = Inl (Errorf_w ''get space pages'' err)
        \<and> Store docs \<notin> set (snd (FetchPagesActivity env input)))
   \<and> (fst (SearchCQL_fetch env sinput) = Inl err \<longrightarrow>
        fst (SearchCQLActivity env sinput) = Inl (Errorf_w ''search cql'' err)
        \<and> Store docs \<notin> set (snd (SearchCQLActivity env sinput)))
   \<and> Store docs \<notin> set (snd (FetchPageActivity env pinput))"
proof (intro conjI impI; (elim conjE)?)
  assume a: "HTTPDo req \<in> set (snd (FetchPagesActivity env input))"
    and b: "env_Do env (30 * Second) req = Inr resp" "Response_StatusCode resp \<noteq> StatusOK"
  from a have r: "HTTPDo req \<in> set (snd (FetchPages_fetch env input))"
    by (simp add: FetchPagesActivity_requests)
  from GetSpacePages_status [OF r] b GetSpacePages_trace(1) [OF r]
  show "FetchPagesActivity env input =
      (Inl (Errorf_w ''get space pages''
              (Errorf_status_body (Response_StatusCode resp) (Response_Body resp))),
       [HTTPDo req])"
    by (simp add: NewClient_timeout FetchPagesActivity_failed)
next
  assume a: "HTTPDo req \<in> set (snd (FetchPageActivity env pinput))"
    and b: "env_Do env (30 * Second) req = Inr resp" "Response_StatusCode resp \<noteq> StatusOK"
  from a have r: "HTTPDo req \<in> set (snd (GetPage env (FetchPage_client pinput) (FetchPageInput_PageID pinput)))"
    by (simp add: FetchPageActivity_eq)
  from GetPage_status [OF r] b GetPage_trace(1) [OF r]
  show "FetchPageActivity env pinput =
      (Inl (Errorf_w ''get page''
              (Errorf_status_body (Response_StatusCode resp) (Response_Body resp))),
       [HTTPDo req])"
    by (simp add: NewClient_timeout FetchPageActivity_eq)
next
  assume a: "HTTPDo req \<in> set (snd (SearchCQLActivity env sinput))"
    and b: "env_Do env (30 * Second) req = Inr resp" "Response_StatusCode resp \<noteq> StatusOK"
  from a have r: "HTTPDo req \<in> set (snd (SearchCQL_fetch env sinput))"
    by (simp add: SearchCQLActivity_requests)
  from SearchCQL_status [OF r] b SearchCQL_trace(1) [OF r]
  show "SearchCQLActivity env sinput =
      (Inl (Errorf_w ''search cql''
              (Errorf_status_body (Response_StatusCode resp) (Response_Body resp))),
       [HTTPDo req])"
    by (simp add: NewClient_timeout SearchCQLActivity_failed)
next
  assume f: "fst (FetchPages_fetch env input) = Inl err"
  show "fst (FetchPagesActivity env input) = Inl (Errorf_w ''get space pages'' err)"
    by (simp add: FetchPagesActivity_failed [OF f])
  show "Store docs \<notin> set (snd (FetchPagesActivity env input))"
    by (simp add: FetchPagesActivity_failed [OF f] GetSpacePages_no_store)
next
  assume f: "fst (SearchCQL_fetch env sinput) = Inl err"
  show "fst (SearchCQLActivity env sinput) = Inl (Errorf_w ''search cql'' err)"
    by (simp add: SearchCQLActivity_failed [OF f])
  show "Store docs \<notin> set (snd (SearchCQLActivity env sinput))"
    by (simp add: SearchCQLActivity_failed [OF f] SearchCQL_no_store)
next
  show "Store docs \<notin> set (snd (FetchPageActivity env pinput))"
    by (simp add: FetchPageActivity_eq GetPage_no_store)
qed

theorem remote_error_aborts_witness:
  "HTTPDo (example_request
      ''https://wiki/wiki/rest/api/content?spaceKey=ENG&limit=100&expand=body.storage,space,version'')
     \<in> set (snd (FetchPagesActivity (example_env 503) (example_FetchPagesInput None 0)))
   \<and> HTTPDo (example_request
      ''https://wiki/wiki/rest/api/content/1?expand=body.storage,space,version'')
     \<in> set (snd (FetchPageActivity (example_env 503) example_FetchPageInput))
   \<and> HTTPDo (example_request
      ''https://wiki/wiki/rest/api/search?cql=type+%3D+page&limit=100&expand=content.body.storage,content.space,content.version'')
     \<in> set (snd (SearchCQLActivity (example_env 503) (example_SearchCQLInput 0)))
   \<and> (\<forall>req. env_Do (example_env 503) (30 * Second) req
          = Inr \<lparr>Response_StatusCode = 503, Response_Body = ''body''\<rparr>)
   \<and> 503 \<noteq> StatusOK
   \<and> fst (FetchPages_fetch (example_env 503) (example_FetchPagesInput None 0))
       = Inl (Errorf_status_body 503 ''body'')
   \<and> fst (SearchCQL_fetch (example_env 503) (example_SearchCQLInput 0))
       = Inl (Errorf_status_body 503 ''body'')
   \<and> FetchPagesActivity (example_env 503) (example_FetchPagesInput None 0) =
       (Inl (Errorf_w ''get space pages'' (Errorf_status_body 503 ''body'')),
        [HTTPDo (example_request
          ''https://wiki/wiki/rest/api/content?spaceKey=ENG&limit=100&expand=body.storage,space,version'')])
   \<and> FetchPageActivity (example_env 503) example_FetchPageInput =
       (Inl (Errorf_w ''get page'' (Errorf_status_body 503 ''body'')),
        [HTTPDo (example_request
          ''https://wiki/wiki/rest/api/content/1?expand=body.storage,space,version'')])
   \<and> SearchCQLActivity (example_env 503) (example_SearchCQLInput 0) =
       (Inl (Errorf_w ''search cql'' (Errorf_status_body 503 ''body'')),
        [HTTPDo (example_request
          ''https://wiki/wiki/rest/api/search?cql=type+%3D+page&limit=100&expand=content.body.storage,content.space,content.version'')])
   \<and> Store [] \<notin> set (snd (FetchPagesActivity (example_env 503) (example_FetchPagesInput None 0)))
   \<and> Store [] \<notin> set (snd (SearchCQLActivity (example_env 503) (example_SearchCQLInput 0)))
   \<and> Store [] \<notin> set (snd (FetchPageActivity (example_env 503) example_FetchPageInput))"
proof -
  let ?resp = "\<lparr>Response_StatusCode = 503, Response_Body = ''body''\<rparr>"
  have r1: "HTTPDo (example_request
      ''https://wiki/wiki/rest/api/content?spaceKey=ENG&limit=100&expand=body.storage,space,version'')
     \<in> set (snd (FetchPagesActivity (example_env 503) (example_FetchPagesInput None 0)))"
    by (simp only: FetchPagesActivity_requests example_traces list.set insertI1)
  have r2: "HTTPDo (example_request
      ''https://wiki/wiki/rest/api/content/1?expand=body.storage,space,version'')
     \<in> set (snd (FetchPageActivity (example_env 503) example_FetchPageInput))"
    by (simp only: FetchPageActivity_eq snd_conv example_traces list.set insertI1)
  have r3: "HTTPDo (example_request
      ''https://wiki/wiki/rest/api/search?cql=type+%3D+page&limit=100&expand=content.body.storage,content.space,content.version'')
     \<in> set (snd (SearchCQLActivity (example_env 503) (example_SearchCQLInput 0)))"
    by (simp only: SearchCQLActivity_requests example_traces list.set insertI1)
  have d: "\<And>req. env_Do (example_env 503) (30 * Second) req = Inr ?resp"
    by (simp only: example_Do)
  have s: "503 \<noteq> StatusOK"
    by (simp add: StatusOK_def)
  have sel: "Response_StatusCode ?resp = 503" "Response_Body ?resp = ''body''"
    by simp_all
  have f1: "fst (FetchPages_fetch (example_env 503) (example_FetchPagesInput None 0))
              = Inl (Errorf_status_body 503 ''body'')"
    and f3: "fst (SearchCQL_fetch (example_env 503) (example_SearchCQLInput 0))
              = Inl (Errorf_status_body 503 ''body'')"
    by (simp_all add: GetSpacePages_def SearchCQL_def NewRequestWithContext_def example_env_def
        Let_def StatusOK_def)
  note t = remote_error_aborts [where env = "example_env 503" and resp = ?resp
      and input = "example_FetchPagesInput None 0" and pinput = example_FetchPageInput
      and sinput = "example_SearchCQLInput 0" and err = "Errorf_status_body 503 ''body''"
      and docs = "[]", unfolded sel]
  note c1 = t [THEN conjunct1, rule_format, OF conjI [OF r1 conjI [OF d s]]]
  note c2 = t [THEN conjunct2, THEN conjunct1, rule_format, OF conjI [OF r2 conjI [OF d s]]]
  note c3 = t [THEN conjunct2, THEN conjunct2, THEN conjunct1, rule_format,
      OF conjI [OF r3 conjI [OF d s]]]
  note c4 = t [THEN conjunct2, THEN conjunct2, THEN conjunct2, THEN conjunct1, rule_format, OF f1]
  note c5 = t [THEN conjunct2, THEN conjunct2, THEN conjunct2, THEN conjunct2, THEN conjunct1,
      rule_format, OF f3]
  note c6 = t [THEN conjunct2, THEN conjunct2, THEN conjunct2, THEN conjunct2, THEN conjunct2]
  from c1 c2 c3 c4 c5 c6 r1 r2 r3 d s f1 f3
  show ?thesis by blast
qed

text \<open>
  Claim C10. With a limit of zero or less, \<^verbatim>\<open>FetchPagesActivity\<close> and
  \<^verbatim>\<open>SearchCQLActivity\<close> behave as with the limit 100, and the request they send always carries
  the limit the operation chose (100, or the caller's positive limit), never the client's
  default of 25.
\<close>

theorem default_limit_is_100:
  "(FetchPagesInput_Limit input \<le> 0 \<longrightarrow>
      FetchPagesActivity env input = FetchPagesActivity env (input\<lparr>FetchPagesInput_Limit := 100\<rparr>))
   \<and> (HTTPDo req \<in> set (snd (FetchPagesActivity env input)) \<longrightarrow>
      Request_URL req =
        GetSpacePages_endpoint (FetchPages_client input) (FetchPagesInput_SpaceKey input)
          (if FetchPagesInput_Limit input \<le> 0 then 100 else FetchPagesInput_Limit input))
   \<and> (SearchCQLInput_Limit sinput \<le> 0 \<longrightarrow>
      SearchCQLActivity env sinput = SearchCQLActivity env (sinput\<lparr>SearchCQLInput_Limit := 100\<rparr>))
   \<and> (HTTPDo sreq \<in> set (snd (SearchCQLActivity env sinput)) \<longrightarrow>
      Request_URL sreq =
        SearchCQL_endpoint (SearchCQL_client sinput) (SearchCQLInput_CQL sinput)
          (if SearchCQLInput_Limit sinput \<le> 0 then 100 else SearchCQLInput_Limit sinput))"
proof (intro conjI impI)
  assume "FetchPagesInput_Limit input \<le> 0"
  then show "FetchPagesActivity env input
               = FetchPagesActivity env (input\<lparr>FetchPagesInput_Limit := 100\<rparr>)"
    by (simp add: FetchPagesActivity_def Let_def split: prod.splits sum.splits)
next
  assume "HTTPDo req \<in> set (snd (FetchPagesActivity env input))"
  then have "HTTPDo req \<in> set (snd (FetchPages_fetch env input))"
    by (simp add: FetchPagesActivity_requests)
  from GetSpacePages_trace(2) [OF this]
  show "Request_URL req =
        GetSpacePages_endpoint (FetchPages_client input) (FetchPagesInput_SpaceKey input)
          (if FetchPagesInput_Limit input \<le> 0 then 100 else FetchPagesInput_Limit input)"
    by (simp split: if_splits)
next
  assume "SearchCQLInput_Limit sinput \<le> 0"
  then show "SearchCQLActivity env sinput
               = SearchCQLActivity env (sinput\<lparr>SearchCQLInput_Limit := 100\<rparr>)"
    by (simp add: SearchCQLActivity_def Let_def split: prod.splits sum.splits)
next
  assume "HTTPDo sreq \<in> set (snd (SearchCQLActivity env sinput))"
  then have "HTTPDo sreq \<in> set (snd (SearchCQL_fetch env sinput))"
    by (simp add: SearchCQLActivity_requests)
  from SearchCQL_trace(2) [OF this]
  show "Request_URL sreq =
        SearchCQL_endpoint (SearchCQL_client sinput) (SearchCQLInput_CQL sinput)
          (if SearchCQLInput_Limit sinput \<le> 0 then 100 else SearchCQLInput_Limit sinput)"
    by (simp split: if_splits)
qed

theorem default_limit_is_100_witness:
  "FetchPagesInput_Limit (example_FetchPagesInput None 0) \<le> 0
   \<and> FetchPagesActivity (example_env 200) (example_FetchPagesInput None 0)
       = FetchPagesActivity (example_env 200)
           ((example_FetchPagesInput None 0)\<lparr>FetchPagesInput_Limit := 100\<rparr>)
   \<and> HTTPDo (example_request
        ''https://wiki/wiki/rest/api/content?spaceKey=ENG&limit=100&expand=body.storage,space,version'')
       \<in> set (snd (FetchPagesActivity (example_env 200) (example_FetchPagesInput None 0)))
   \<and> GetSpacePages_endpoint (FetchPages_client (example_FetchPagesInput None 0))
         (FetchPagesInput_SpaceKey (example_FetchPagesInput None 0))
         (if FetchPagesInput_Limit (example_FetchPagesInput None 0) \<le> 0 then 100
          else FetchPagesInput_Limit (example_FetchPagesInput None 0))
       = ''https://wiki/wiki/rest/api/content?spaceKey=ENG&limit=100&expand=body.storage,space,version''
   \<and> SearchCQLInput_Limit (example_SearchCQLInput 0) \<le> 0
   \<and> SearchCQLActivity (example_env 200) (example_SearchCQLInput 0)
       = SearchCQLActivity (example_env 200)
           ((example_SearchCQLInput 0)\<lparr>SearchCQLInput_Limit := 100\<rparr>)
   \<and> HTTPDo (example_request
        ''https://wiki/wiki/rest/api/search?cql=type+%3D+page&limit=100&expand=content.body.storage,content.space,content.version'')
       \<in> set (snd (SearchCQLActivity (example_env 200) (example_SearchCQLInput 0)))
   \<and> SearchCQL_endpoint (SearchCQL_client (example_SearchCQLInput 0))
         (SearchCQLInput_CQL (example_SearchCQLInput 0))
         (if SearchCQLInput_Limit (example_SearchCQLInput 0) \<le> 0 then 100
          else SearchCQLInput_Limit (example_SearchCQLInput 0))
       = ''https://wiki/wiki/rest/api/search?cql=type+%3D+page&limit=100&expand=content.body.storage,content.space,content.version''"
proof -
  let ?u1 = "''https://wiki/wiki/rest/api/content?spaceKey=ENG&limit=100&expand=body.storage,space,version''"
  let ?u2 = "''https://wiki/wiki/rest/api/search?cql=type+%3D+page&limit=100&expand=content.body.storage,content.space,content.version''"
  have l1: "FetchPagesInput_Limit (example_FetchPagesInput None 0) \<le> 0"
    and l2: "SearchCQLInput_Limit (example_SearchCQLInput 0) \<le> 0"
    by (simp_all add: example_inputs)
  have r1: "HTTPDo (example_request ?u1)
     \<in> set (snd (FetchPagesActivity (example_env 200) (example_FetchPagesInput None 0)))"
    by (simp only: FetchPagesActivity_requests example_traces list.set insertI1)
  have r2: "HTTPDo (example_request ?u2)
     \<in> set (snd (SearchCQLActivity (example_env 200) (example_SearchCQLInput 0)))"
    by (simp only: SearchCQLActivity_requests example_traces list.set insertI1)
  have u: "Request_URL (example_request ?u1) = ?u1" "Request_URL (example_request ?u2) = ?u2"
    by (simp_all add: example_request_def)
  note t = default_limit_is_100 [where env = "example_env 200"
      and input = "example_FetchPagesInput None 0" and sinput = "example_SearchCQLInput 0"
      and req = "example_request ?u1" and sreq = "example_request ?u2", unfolded u]
  from t [THEN conjunct1, rule_format, OF l1]
       t [THEN conjunct2, THEN conjunct1, rule_format, OF r1]
       t [THEN conjunct2, THEN conjunct2, THEN conjunct1, rule_format, OF l2]
       t [THEN conjunct2, THEN conjunct2, THEN conjunct2, rule_format, OF r2]
       l1 l2 r1 r2
  show ?thesis by (intro conjI) (assumption | rule sym, assumption)+
qed

section \<open>The markup normalizer\<close>

subsection \<open>Decoding and fields\<close>
lemma DecodeRuneInString_width:
  "s \<noteq> [] \<Longrightarrow> 1 \<le> snd (DecodeRuneInString s) \<and> snd (DecodeRuneInString s) \<le> length s"
  by (cases s) (auto simp: DecodeRuneInString_def Let_def split: if_splits)


lemma seqSize_le: "seqSize b \<le> 4"
  by (simp add: seqSize_def)

lemma not_cont_reject:
  "\<not> cont c \<Longrightarrow> (of_char c :: nat) < acceptLo b \<or> acceptHi b < of_char c"
  "\<not> cont c \<Longrightarrow> (of_char c :: nat) < 0x80 \<or> 0xBF < (of_char c :: nat)"
  by (auto simp: cont_def acceptLo_def acceptHi_def)

lemma decode_short:
  assumes "okstart r"
  shows "DecodeRuneInString ([c0] @ r) =
           (if seqSize (of_char c0) = 1 then (of_char c0, 1) else (RuneError, 1))"
    and "DecodeRuneInString ([c0, c1] @ r) =
           (if seqSize (of_char c0) = 1 then (of_char c0, 1)
            else if seqSize (of_char c0) = 2 then DecodeRuneInString [c0, c1]
            else (RuneError, 1))"
    and "DecodeRuneInString ([c0, c1, c2] @ r) =
           (if seqSize (of_char c0) = 1 then (of_char c0, 1)
            else if seqSize (of_char c0) = 2 \<or> seqSize (of_char c0) = 3
            then DecodeRuneInString [c0, c1, c2]
            else (RuneError, 1))"
    and "DecodeRuneInString (c0 # c1 # c2 # c3 # u @ r) = DecodeRuneInString [c0, c1, c2, c3]"
  using assms seqSize_le [of "of_char c0"]
  by (cases r; auto simp: DecodeRuneInString_def Let_def okstart_def not_cont_reject)+


lemma decode_context:
  assumes "u \<noteq> []" "okstart r"
  shows "DecodeRuneInString (u @ r) = DecodeRuneInString u"
proof -
  have ok: "okstart []" by (simp add: okstart_def)
  consider c0 where "u = [c0]" | c0 c1 where "u = [c0, c1]" | c0 c1 c2 where "u = [c0, c1, c2]"
    | c0 c1 c2 c3 v where "u = c0 # c1 # c2 # c3 # v"
    using assms(1) by (metis list.exhaust)
  then show ?thesis
  proof cases
    case 1
    then show ?thesis using decode_short(1) [OF assms(2), where ?c0.0 = c0] decode_short(1) [OF ok, where ?c0.0 = c0] by simp
  next
    case 2
    then show ?thesis using decode_short(2) [OF assms(2), where ?c0.0 = c0 and ?c1.0 = c1]
        decode_short(2) [OF ok, where ?c0.0 = c0 and ?c1.0 = c1] by simp
  next
    case 3
    then show ?thesis using decode_short(3) [OF assms(2), where ?c0.0 = c0 and ?c1.0 = c1 and ?c2.0 = c2]
        decode_short(3) [OF ok, where ?c0.0 = c0 and ?c1.0 = c1 and ?c2.0 = c2] by simp
  next
    case 4
    then show ?thesis using decode_short(4) [OF assms(2), where ?c0.0 = c0 and ?c1.0 = c1 and ?c2.0 = c2 and ?c3.0 = c3 and u = v]
        decode_short(4) [OF ok, where ?c0.0 = c0 and ?c1.0 = c1 and ?c2.0 = c2 and ?c3.0 = c3 and u = v] by simp
  qed
qed

lemma runes_Nil [simp]: "runes [] = []"
  by (simp add: runes.simps)

lemma runes_step:
  "s \<noteq> [] \<Longrightarrow> runes s = fst (DecodeRuneInString s) # runes (drop (snd (DecodeRuneInString s)) s)"
  by (subst runes.simps) (simp add: case_prod_beta)

lemma runes_append:
  "okstart r \<Longrightarrow> runes (u @ r) = runes u @ runes r"
proof (induction u rule: length_induct)
  case (1 u)
  show ?case
  proof (cases "u = []")
    case True
    then show ?thesis by simp
  next
    case False
    let ?n = "snd (DecodeRuneInString u)"
    have w: "1 \<le> ?n" "?n \<le> length u" using DecodeRuneInString_width [OF False] by simp_all
    have d: "DecodeRuneInString (u @ r) = DecodeRuneInString u"
      by (rule decode_context [OF False 1(2)])
    have "length (drop ?n u) < length u" using w False by simp
    then have ih: "runes (drop ?n u @ r) = runes (drop ?n u) @ runes r"
      using 1 by blast
    have "runes (u @ r) = fst (DecodeRuneInString u) # runes (drop ?n (u @ r))"
      using False d by (simp add: runes_step [of "u @ r"])
    also have "drop ?n (u @ r) = drop ?n u @ r" using w by simp
    finally show ?thesis using ih False by (simp add: runes_step [of u])
  qed
qed

lemma IsSpace_RuneError [simp]: "\<not> IsSpace RuneError"
  by (simp add: IsSpace_def RuneError_def)

lemma space_okstart:
  "IsSpace (fst (DecodeRuneInString s)) \<Longrightarrow> okstart s"
  by (cases s) (auto simp: okstart_def cont_def DecodeRuneInString_def Let_def seqSize_def)

lemma runes_nonempty: "s \<noteq> [] \<Longrightarrow> runes s \<noteq> []"
  by (simp add: runes_step)

lemma FieldsFunc_Nil [simp]: "FieldsFunc [] cur = (if cur = [] then [] else [cur])"
  by (simp add: FieldsFunc.simps)

lemma FieldsFunc_step:
  "s \<noteq> [] \<Longrightarrow> FieldsFunc s cur =
     (if IsSpace (fst (DecodeRuneInString s))
      then (if cur = [] then FieldsFunc (drop (snd (DecodeRuneInString s)) s) []
            else cur # FieldsFunc (drop (snd (DecodeRuneInString s)) s) [])
      else FieldsFunc (drop (snd (DecodeRuneInString s)) s)
             (cur @ take (snd (DecodeRuneInString s)) s))"
  by (subst FieldsFunc.simps) (simp add: case_prod_beta)

lemma FieldsFunc_solid:
  assumes "\<forall>x \<in> set R. \<not> IsSpace x" "runes (cur @ s) = R @ runes s"
  shows "\<forall>w \<in> set (FieldsFunc s cur). solid w"
  using assms
proof (induction s arbitrary: cur R rule: length_induct)
  case (1 s)
  show ?case
  proof (cases "s = []")
    case True
    then show ?thesis using 1(2,3) by (auto simp: solid_def)
  next
    case False
    let ?r = "fst (DecodeRuneInString s)" and ?n = "snd (DecodeRuneInString s)"
    have w: "1 \<le> ?n" "?n \<le> length s" using DecodeRuneInString_width [OF False] by simp_all
    have less: "length (drop ?n s) < length s" using w False by simp
    show ?thesis
    proof (cases "IsSpace ?r")
      case True
      have ok: "okstart s" by (rule space_okstart [OF True])
      have "runes (cur @ s) = runes cur @ runes s" by (rule runes_append [OF ok])
      then have "runes cur = R" using 1(3) by simp
      then have c: "cur \<noteq> [] \<Longrightarrow> solid cur" using 1(2) by (simp add: solid_def)
      have "\<forall>w \<in> set (FieldsFunc (drop ?n s) []). solid w"
        using 1(1) less by (metis append_Nil empty_iff list.set(1))
      then show ?thesis using True False c by (simp add: FieldsFunc_step)
    next
      case False2: False
      have "runes (cur @ s) = R @ ?r # runes (drop ?n s)"
        using 1(3) False by (simp add: runes_step [of s])
      then have "runes ((cur @ take ?n s) @ drop ?n s) = (R @ [?r]) @ runes (drop ?n s)"
        by simp
      moreover have "\<forall>x \<in> set (R @ [?r]). \<not> IsSpace x" using 1(2) False2 by simp
      ultimately have "\<forall>w \<in> set (FieldsFunc (drop ?n s) (cur @ take ?n s)). solid w"
        using 1(1) less by blast
      then show ?thesis using False False2 by (simp add: FieldsFunc_step)
    qed
  qed
qed

lemma Fields_solid: "\<forall>w \<in> set (Fields s). solid w"
  unfolding Fields_def by (rule FieldsFunc_solid [of "[]"]) simp_all


lemma decode_ascii_space:
  "DecodeRuneInString (CHR '' '' # s) = (0x20, 1)"
  by (simp add: DecodeRuneInString_def seqSize_def)

lemma IsSpace_0x20 [simp]: "IsSpace 0x20"
  by (simp add: IsSpace_def)

lemma okstart_space [simp]: "okstart (CHR '' '' # s)"
  by (simp add: okstart_def cont_def)

lemma runes_space: "runes (CHR '' '' # s) = 0x20 # runes s"
  by (simp add: runes_step decode_ascii_space)

lemma Join_Cons: "ws \<noteq> [] \<Longrightarrow> Join (w # ws) sep = w @ sep @ Join ws sep"
  by (cases ws) simp_all

lemma Join_nonempty: "\<forall>w \<in> set ws. solid w \<Longrightarrow> ws \<noteq> [] \<Longrightarrow> Join ws sep \<noteq> []"
  by (induction ws sep rule: Join.induct) (auto simp: solid_def)

lemma adjacentSpaces_Cons:
  "adjacentSpaces (a # rs) = ((IsSpace a \<and> leadingSpace rs) \<or> adjacentSpaces rs)"
  by (cases rs) simp_all

lemma adjacentSpaces_append:
  "\<forall>x \<in> set A. \<not> IsSpace x \<Longrightarrow> adjacentSpaces (A @ B) = adjacentSpaces B"
  by (induction A) (simp_all add: adjacentSpaces_Cons)

lemma leadingSpace_append:
  "A \<noteq> [] \<Longrightarrow> leadingSpace (A @ B) = leadingSpace A"
  by (cases A) simp_all

lemma leadingSpace_solid:
  "A \<noteq> [] \<Longrightarrow> \<forall>x \<in> set A. \<not> IsSpace x \<Longrightarrow> \<not> leadingSpace A"
  by (cases A) simp_all

lemma runes_Join:
  assumes "\<forall>w \<in> set ws. solid w"
  shows "\<not> adjacentSpaces (runes (Join ws '' ''))
         \<and> \<not> leadingSpace (runes (Join ws '' ''))
         \<and> \<not> leadingSpace (rev (runes (Join ws '' '')))
         \<and> set (filter IsSpace (runes (Join ws '' ''))) \<subseteq> {0x20}"
  using assms
proof (induction ws)
  case Nil
  then show ?case by simp
next
  case (Cons w ws)
  have sw: "runes w \<noteq> []" "\<forall>x \<in> set (runes w). \<not> IsSpace x"
    using Cons.prems by (simp_all add: solid_def runes_nonempty)
  have rsw: "rev (runes w) \<noteq> []" "\<forall>x \<in> set (rev (runes w)). \<not> IsSpace x"
    using sw by simp_all
  show ?case
  proof (cases "ws = []")
    case True
    then show ?thesis
      using sw rsw adjacentSpaces_append [of "runes w" "[]"]
        leadingSpace_solid [of "runes w"] leadingSpace_solid [of "rev (runes w)"]
      by (simp add: filter_empty_conv [THEN iffD2])
  next
    case False
    let ?J = "Join ws '' ''"
    have ih: "\<not> adjacentSpaces (runes ?J)" "\<not> leadingSpace (runes ?J)"
      "\<not> leadingSpace (rev (runes ?J))" "set (filter IsSpace (runes ?J)) \<subseteq> {0x20}"
      using Cons by simp_all
    have ne: "runes ?J \<noteq> []"
      using Join_nonempty [of ws "'' ''"] Cons.prems False by (simp add: runes_nonempty)
    have r: "runes (Join (w # ws) '' '') = runes w @ 0x20 # runes ?J"
      using False by (simp add: Join_Cons runes_append runes_space)
    have "\<not> adjacentSpaces (runes w @ 0x20 # runes ?J)"
      using sw ih by (simp add: adjacentSpaces_append adjacentSpaces_Cons)
    moreover have "\<not> leadingSpace (runes w @ 0x20 # runes ?J)"
      using sw by (simp add: leadingSpace_append leadingSpace_solid)
    moreover have "\<not> leadingSpace (rev (runes w @ 0x20 # runes ?J))"
      using ne ih(3) by (simp add: leadingSpace_append)
    moreover have "set (filter IsSpace (runes w @ 0x20 # runes ?J)) \<subseteq> {0x20}"
      using sw ih(4) by (simp add: filter_empty_conv [THEN iffD2])
    ultimately show ?thesis unfolding r by blast
  qed
qed

text \<open>
  Claim C8. In the output of \<^verbatim>\<open>stripHTML\<close>, read as the code points a \<^verbatim>\<open>range\<close> loop yields,
  no two whitespace code points (in the sense of \<^verbatim>\<open>unicode.IsSpace\<close>) stand side by side, the
  first and the last code point are not whitespace, and every whitespace code point is the
  single space U+0020 that joins two words.
\<close>

theorem stripHTML_whitespace_normalized:
  "\<not> adjacentSpaces (runes (stripHTML html))
   \<and> \<not> leadingSpace (runes (stripHTML html))
   \<and> \<not> leadingSpace (rev (runes (stripHTML html)))
   \<and> set (filter IsSpace (runes (stripHTML html))) \<subseteq> {0x20}"
  unfolding stripHTML_def Let_def by (rule runes_Join [OF Fields_solid])


subsection \<open>Tags\<close>

lemma T_Nil [simp]: "htmlTagRegex_ReplaceAllString [] repl = []"
  by (simp add: htmlTagRegex_ReplaceAllString.simps)

lemma T_Cons:
  "htmlTagRegex_ReplaceAllString (c # cs) repl =
     (if c = CHR ''<'' \<and> CHR ''>'' \<in> set cs
      then repl @ htmlTagRegex_ReplaceAllString (tl (dropWhile (\<lambda>x. x \<noteq> CHR ''>'') cs)) repl
      else c # htmlTagRegex_ReplaceAllString cs repl)"
  by (subst htmlTagRegex_ReplaceAllString.simps) simp

lemma hasTag_iff:
  "hasTag s \<longleftrightarrow>
     (\<exists>ps t ss. s = ps @ [CHR ''<''] @ t @ [CHR ''>''] @ ss \<and> CHR ''>'' \<notin> set t)"
proof (induction s)
  case Nil
  then show ?case by simp
next
  case (Cons c cs)
  show ?case
  proof
    assume "hasTag (c # cs)"
    then consider "c = CHR ''<''" "CHR ''>'' \<in> set cs" | "hasTag cs" by auto
    then show "\<exists>ps t ss. c # cs = ps @ [CHR ''<''] @ t @ [CHR ''>''] @ ss \<and> CHR ''>'' \<notin> set t"
    proof cases
      case 1
      from split_list_first [OF 1(2)] obtain t ss where "cs = t @ CHR ''>'' # ss" "CHR ''>'' \<notin> set t"
        by blast
      then have "c # cs = [] @ [CHR ''<''] @ t @ [CHR ''>''] @ ss \<and> CHR ''>'' \<notin> set t"
        using 1(1) by simp
      then show ?thesis by blast
    next
      case 2
      then obtain ps t ss where "cs = ps @ [CHR ''<''] @ t @ [CHR ''>''] @ ss" "CHR ''>'' \<notin> set t"
        using Cons.IH by blast
      then have "c # cs = (c # ps) @ [CHR ''<''] @ t @ [CHR ''>''] @ ss \<and> CHR ''>'' \<notin> set t"
        by simp
      then show ?thesis by blast
    qed
  next
    assume "\<exists>ps t ss. c # cs = ps @ [CHR ''<''] @ t @ [CHR ''>''] @ ss \<and> CHR ''>'' \<notin> set t"
    then obtain ps t ss where e: "c # cs = ps @ [CHR ''<''] @ t @ [CHR ''>''] @ ss"
      and t: "CHR ''>'' \<notin> set t" by blast
    show "hasTag (c # cs)"
    proof (cases ps)
      case Nil
      then show ?thesis using e by auto
    next
      case (Cons p ps')
      then have "cs = ps' @ [CHR ''<''] @ t @ [CHR ''>''] @ ss" using e by simp
      then have "hasTag cs" using Cons.IH t by blast
      then show ?thesis by simp
    qed
  qed
qed





subsection \<open>Replacements\<close>

lemma R_Nil [simp]: "ReplaceAll [] old new = []"
  by (simp add: ReplaceAll.simps)

lemma R_old_Nil [simp]: "ReplaceAll s [] new = s"
  by (simp add: ReplaceAll.simps)

lemma R_match:
  "old \<noteq> [] \<Longrightarrow> prefix old s \<Longrightarrow>
     ReplaceAll s old new = new @ ReplaceAll (drop (length old) s) old new"
  by (subst ReplaceAll.simps) auto

lemma R_skip:
  "\<not> prefix old (c # s) \<Longrightarrow> ReplaceAll (c # s) old new = c # ReplaceAll s old new"
  by (subst ReplaceAll.simps) auto





lemma R_filter:
  assumes "filter P old = []" "filter P new = []"
  shows "filter P (ReplaceAll s old new) = filter P s"
proof (induction s rule: length_induct)
  case (1 s)
  show ?case
  proof (cases s)
    case Nil
    then show ?thesis by simp
  next
    case (Cons a s')
    show ?thesis
    proof (cases "old \<noteq> [] \<and> prefix old s")
      case True
      let ?d = "drop (length old) s"
      have r: "ReplaceAll s old new = new @ ReplaceAll ?d old new"
        using True by (simp add: R_match)
      have "length ?d < length s" using True Cons by simp
      then have ih: "filter P (ReplaceAll ?d old new) = filter P ?d" using 1 by blast
      have "s = old @ ?d" using True by (metis append_eq_conv_conj prefixE)
      then have "filter P s = filter P ?d" using assms(1) by (metis append_Nil filter_append)
      then show ?thesis using r ih assms(2) by simp
    next
      case False
      then have r: "ReplaceAll s old new = a # ReplaceAll s' old new"
        using Cons by (cases "old = []") (simp_all add: R_skip)
      show ?thesis using r 1 Cons by simp
    qed
  qed
qed


subsection \<open>What \<^verbatim>\<open>strings.Fields\<close> keeps\<close>













subsection \<open>The output of \<^verbatim>\<open>stripHTML\<close>\<close>






subsection \<open>Lengths\<close>

lemma T_length:
  "length (htmlTagRegex_ReplaceAllString s '' '') + (if hasTag s then 1 else 0) \<le> length s"
proof (induction s rule: length_induct)
  case (1 s)
  show ?case
  proof (cases s)
    case Nil
    then show ?thesis by simp
  next
    case (Cons c cs)
    let ?d = "tl (dropWhile (\<lambda>x. x \<noteq> CHR ''>'') cs)"
    show ?thesis
    proof (cases "c = CHR ''<'' \<and> CHR ''>'' \<in> set cs")
      case True
      then have "dropWhile (\<lambda>x. x \<noteq> CHR ''>'') cs \<noteq> []" by (simp add: dropWhile_eq_Nil_conv)
      then have d: "length ?d < length cs"
        using length_dropWhile_le [of "\<lambda>x. x \<noteq> CHR ''>''" cs]
        by (cases "dropWhile (\<lambda>x. x \<noteq> CHR ''>'') cs") auto
      then have "length ?d < length s" using Cons by simp
      then have "length (htmlTagRegex_ReplaceAllString ?d '' '') \<le> length ?d"
        using 1 by (metis add_leD1)
      then show ?thesis using True d Cons by (simp add: T_Cons)
    next
      case False
      have "length (htmlTagRegex_ReplaceAllString cs '' '') + (if hasTag cs then 1 else 0) \<le> length cs"
        using 1 Cons by simp
      then show ?thesis using False Cons by (auto simp: T_Cons)
    qed
  qed
qed

lemma R_length:
  "length (ReplaceAll s old [c]) + (if sublist old s \<and> 2 \<le> length old then 1 else 0) \<le> length s"
proof (induction s rule: length_induct)
  case (1 s)
  show ?case
  proof (cases s)
    case Nil
    then show ?thesis by auto
  next
    case (Cons a s')
    show ?thesis
    proof (cases "old \<noteq> [] \<and> prefix old s")
      case True
      let ?d = "drop (length old) s"
      have r: "ReplaceAll s old [c] = c # ReplaceAll ?d old [c]"
        using True by (simp add: R_match)
      have l: "length old \<le> length s" using True by (simp add: prefix_length_le)
      have "length ?d < length s" using True Cons by simp
      then have "length (ReplaceAll ?d old [c]) \<le> length ?d"
        using 1 by (metis add_leD1)
      then show ?thesis using r l True by (cases old) auto
    next
      case False
      show ?thesis
      proof (cases "old = []")
        case True
        then show ?thesis by simp
      next
        case ne: False
        then have np: "\<not> prefix old s" using False by simp
        then have r: "ReplaceAll s old [c] = a # ReplaceAll s' old [c]"
          using Cons by (simp add: R_skip)
        have "sublist old s \<Longrightarrow> sublist old s'"
          using np Cons by (simp add: sublist_Cons_right)
        moreover have "length (ReplaceAll s' old [c]) + (if sublist old s' \<and> 2 \<le> length old then 1 else 0)
                \<le> length s'"
          using 1 Cons by simp
        ultimately show ?thesis using r Cons by (auto split: if_splits)
      qed
    qed
  qed
qed

lemma Join_length: "length (Join (w # ws) sep) \<le> length w + length sep + length (Join ws sep)"
  by (cases ws) simp_all

lemma FieldsFunc_length:
  "length (Join (FieldsFunc s cur) '' '') \<le> length cur + length s"
proof (induction s arbitrary: cur rule: length_induct)
  case (1 s)
  show ?case
  proof (cases "s = []")
    case True
    then show ?thesis by simp
  next
    case False
    let ?r = "fst (DecodeRuneInString s)" and ?n = "snd (DecodeRuneInString s)"
    have w: "1 \<le> ?n" "?n \<le> length s" using DecodeRuneInString_width [OF False] by simp_all
    have less: "length (drop ?n s) < length s" using w False by simp
    show ?thesis
    proof (cases "IsSpace ?r")
      case True
      have ih: "length (Join (FieldsFunc (drop ?n s) []) '' '') \<le> length (drop ?n s)"
        using 1 less by (metis add_0 list.size(3))
      show ?thesis
      proof (cases "cur = []")
        case True
        then show ?thesis using \<open>IsSpace ?r\<close> False ih by (simp add: FieldsFunc_step)
      next
        case ne: False
        have "length (Join (cur # FieldsFunc (drop ?n s) []) '' '')
                \<le> length cur + 1 + length (Join (FieldsFunc (drop ?n s) []) '' '')"
          using Join_length [of cur "FieldsFunc (drop ?n s) []" "'' ''"] by simp
        then show ?thesis using True False ne ih w by (simp add: FieldsFunc_step)
      qed
    next
      case False2: False
      have "length (Join (FieldsFunc (drop ?n s) (cur @ take ?n s)) '' '')
              \<le> length (cur @ take ?n s) + length (drop ?n s)"
        using 1 less by blast
      then show ?thesis using False False2 w by (simp add: FieldsFunc_step)
    qed
  qed
qed

lemma Fields_length: "length (Join (Fields s) '' '') \<le> length s"
  using FieldsFunc_length [of s "[]"] by (simp add: Fields_def)


subsection \<open>Where an occurrence in the result of a replacement comes from\<close>







subsection \<open>What \<^verbatim>\<open>strings.Fields\<close> and \<^verbatim>\<open>strings.Join\<close> keep in one piece\<close>









subsection \<open>Tags, codes and a second pass\<close>

lemma stripHTML_eq: "stripHTML html = Join (Fields (stripHTML_text html)) '' ''"
  by (simp add: stripHTML_def stripHTML_text_def Let_def)

lemma R_le: "length (ReplaceAll s old [c]) \<le> length s"
  using R_length [of s old c] by (simp split: if_splits)


lemma T_le: "length (htmlTagRegex_ReplaceAllString s '' '') \<le> length s"
  using T_length [of s] by (simp split: if_splits)








lemma stripHTML_length: "length (stripHTML x) \<le> length x"
proof -
  have "length (stripHTML x) \<le> length (stripHTML_text x)"
    by (simp add: stripHTML_eq Fields_length)
  also have "\<dots> \<le> length (htmlTagRegex_ReplaceAllString x '' '')"
    unfolding stripHTML_text_def Let_def
    by (meson R_le order_trans)
  also have "\<dots> \<le> length x" by (rule T_le)
  finally show ?thesis .
qed






text \<open>
  Claim C3. The five replacements run one after the other on the whole text, the ampersand
  code second: the \<^verbatim>\<open>&\<close> it produces is read again by the three replacements that follow.
  \<^verbatim>\<open>&amp;lt;\<close> becomes \<^verbatim>\<open>&lt;\<close> and then \<^verbatim>\<open><\<close>, where the claim has \<^verbatim>\<open>&lt;\<close> as the result.
\<close>

theorem stripHTML_reexpands_ampersand:
  "ReplaceAll ''&amp;lt;'' ''&amp;'' ''&'' = ''&lt;''
   \<and> stripHTML ''&amp;lt;'' = ''<''
   \<and> stripHTML ''&amp;gt;'' = ''>''
   \<and> stripHTML ''&amp;quot;'' = [CHR 0x22]"
  by code_simp

end
